theory Spec2Isabelle
  imports Main
begin

section \<open>Performance Optimizer: the module state and its host\<close>

text \<open>
  A shallow embedding of the extension's main module (the eight-optimization variant with
  the WebKit guard and the scroll preserver; the two shorter variants of the repository
  share the code modelled here and differ where the sections below say so).

  The module is single threaded and event driven. Its module-level variables and the part of
  the host environment it reads and writes are the fields of one record; every source
  function becomes a function from state to state.
\<close>

subsection \<open>JavaScript values\<close>

type_synonym addr = nat

text \<open>
  The arguments a caller passes to the RegExp constructor: \<open>undefined\<close>, \<open>null\<close>, a string
  or a reference to a RegExp object. Numbers, booleans and other objects are not modelled.
\<close>

datatype jsval = Undefined | Null | Str string | RegExpObj addr

datatype js_error = SyntaxError | TypeError | ReferenceError

text \<open>A RegExp object: its pattern source, its flag string and the mutable read cursor.\<close>

record regex_obj =
  re_source :: string
  re_flags :: string
  lastIndex :: nat

text \<open>
  A function object that can stand in \<open>window.RegExp\<close>: one the host owns, or the wrapper
  closure \<open>Cached\<close> that the n-th successful \<open>enableRegexCache\<close> created.
\<close>

datatype ctor = HostFn nat | CachedFn nat

text \<open>
  Values of a stored settings object, as JSON gives them, with JavaScript truthiness.
\<close>

datatype json = JNull | JBool bool | JNum int | JStr string

fun truthy :: "json \<Rightarrow> bool" where
  "truthy JNull = False"
| "truthy (JBool b) = b"
| "truthy (JNum n) = (n \<noteq> 0)"
| "truthy (JStr s) = (s \<noteq> [])"

type_synonym settings_obj = "string \<Rightarrow> json option"

text \<open>Reading a property for a condition: a missing property is \<open>undefined\<close>, which is falsy.\<close>

definition prop_truthy :: "settings_obj \<Rightarrow> string \<Rightarrow> bool" where
  "prop_truthy obj k = (case obj k of None \<Rightarrow> False | Some v \<Rightarrow> truthy v)"

subsection \<open>The state\<close>

record stats_rec =
  regexSkipped :: nat
  regexCacheHits :: nat
  regexCacheMisses :: nat
  scrollRestored :: nat

text \<open>The scroll geometry of a DOM element, and the snapshot \<open>savedScrollInfo\<close> holds.\<close>

record geometry =
  scrollTop :: int
  scrollHeight :: int
  clientHeight :: int

record scroll_info = geometry +
  distanceFromBottom :: int

text \<open>
  Callbacks the module hands to the host: the closure given to \<open>setTimeout\<close> by the
  end-of-generation handlers, and the two nested closures given to
  \<open>requestAnimationFrame\<close> by the visibility handler (each captures the chat element and
  the consumed snapshot).
\<close>

datatype timeout_cb = RerenderLastMessage

datatype frame_cb = RestoreOuter nat scroll_info | RestoreInner nat scroll_info

record state =
  \<comment> \<open>host: the object in \<open>extension_settings[MODULE_NAME]\<close>, \<open>None\<close> when the slot is falsy\<close>
  module_settings :: "settings_obj option"
  \<comment> \<open>host: the array \<open>extension_settings.disabledExtensions\<close>, \<open>None\<close> when it is nullish\<close>
  disabledExtensions :: "string list option"
  \<comment> \<open>host: \<open>navigator.userAgent\<close>\<close>
  userAgent :: string
  \<comment> \<open>host: the global \<open>window.RegExp\<close>\<close>
  window_RegExp :: ctor
  \<comment> \<open>host: the RegExp objects, by reference, and the next free reference\<close>
  heap :: "addr \<Rightarrow> regex_obj"
  heap_next :: addr
  \<comment> \<open>host: whether \<open>document.body\<close> carries the class \<open>perf-streaming\<close>\<close>
  body_perf_streaming :: bool
  \<comment> \<open>host: pending \<open>setTimeout\<close> and \<open>requestAnimationFrame\<close> callbacks, oldest first\<close>
  timeouts :: "timeout_cb list"
  frame_callbacks :: "frame_cb list"
  \<comment> \<open>host: \<open>document.hidden\<close>, \<open>document.getElementById('chat')\<close>, element geometry\<close>
  document_hidden :: bool
  chat_element :: "nat option"
  elements :: "nat \<Rightarrow> geometry"
  \<comment> \<open>module: \<open>isMobile\<close>, computed once at load\<close>
  isMobile :: bool
  \<comment> \<open>module: the streaming phase\<close>
  isGenerating :: bool
  regexDisabled :: bool
  regexWasAlreadyDisabled :: bool
  stats :: stats_rec
  \<comment> \<open>module: the cache, a Map in insertion order (oldest first)\<close>
  regexCache :: "(string \<times> addr) list"
  OriginalRegExp :: "ctor option"
  \<comment> \<open>number of \<open>Cached\<close> closures created so far\<close>
  closures :: nat
  \<comment> \<open>module: the scroll snapshot\<close>
  savedScrollInfo :: "scroll_info option"

section \<open>Settings\<close>

text \<open>
  \<open>defaultSettings\<close>, in the order \<open>Object.entries\<close> yields it. The last default is the
  module constant \<open>isMobile\<close>.
\<close>

definition defaultSettings :: "bool \<Rightarrow> (string \<times> json) list" where
  "defaultSettings mobile =
     [(''enabled'', JBool True),
      (''deferRegexDuringStreaming'', JBool True),
      (''cacheRegex'', JBool True),
      (''cssContainment'', JBool True),
      (''reduceStreamingEffects'', JBool True),
      (''lightHtmlRenderer'', JBool True),
      (''preventScrollJump'', JBool True),
      (''globalBlurSuppression'', JBool mobile)]"

text \<open>The loop of \<open>getSettings\<close>: a default is written only where \<open>key in object\<close> is false.\<close>

fun backfill :: "(string \<times> json) list \<Rightarrow> settings_obj \<Rightarrow> settings_obj" where
  "backfill [] obj = obj"
| "backfill ((k, v) # rest) obj = backfill rest (if obj k = None then obj(k \<mapsto> v) else obj)"

text \<open>
  A falsy slot is first replaced by a copy of the defaults (\<open>{ ...defaultSettings }\<close>); the
  loop then runs on the stored object.
\<close>

definition merge_settings :: "(string \<times> json) list \<Rightarrow> settings_obj option \<Rightarrow> settings_obj" where
  "merge_settings defaults stored =
     backfill defaults (case stored of None \<Rightarrow> map_of defaults | Some obj \<Rightarrow> obj)"

text \<open>
  \<open>getSettings\<close> returns the stored object itself, after the merge; the merge is a write to
  the host's settings. The state holds the slot as the handlers can read it: falsy, or an
  object. What the same code does on any other slot value is \<open>getSettings_slot\<close> below.
\<close>

definition getSettings :: "state \<Rightarrow> settings_obj \<times> state" where
  "getSettings s =
     (let obj = merge_settings (defaultSettings (isMobile s)) (module_settings s)
      in (obj, s\<lparr>module_settings := Some obj\<rparr>))"







section \<open>Optimization 1: deferring regex during streaming\<close>

text \<open>\<open>Array.prototype.indexOf\<close> (\<open>None\<close> for -1) and \<open>splice(idx, 1)\<close>.\<close>

fun indexOf :: "string list \<Rightarrow> string \<Rightarrow> nat option" where
  "indexOf [] x = None"
| "indexOf (y # ys) x = (if y = x then Some 0 else map_option Suc (indexOf ys x))"

definition splice1 :: "nat \<Rightarrow> string list \<Rightarrow> string list" where
  "splice1 idx xs = take idx xs @ drop (Suc idx) xs"

text \<open>
  The list of disabled extensions is an array of strings, or nullish (\<open>None\<close>): then
  \<open>?.includes\<close> gives \<open>undefined\<close>, \<open>?? false\<close> makes it false and \<open>Array.isArray\<close> fails.
  Other values in that slot (an object without \<open>includes\<close>, a string) are not modelled.
\<close>

definition disableRegexForStreaming :: "state \<Rightarrow> state" where
  "disableRegexForStreaming s =
     (let (settings, s1) = getSettings s in
      if \<not> prop_truthy settings ''deferRegexDuringStreaming'' then s1
      else
        let was = (case disabledExtensions s1 of None \<Rightarrow> False | Some exts \<Rightarrow> ''regex'' \<in> set exts);
            s2 = s1\<lparr>regexWasAlreadyDisabled := was\<rparr>
        in (case disabledExtensions s2 of
              None \<Rightarrow> s2
            | Some exts \<Rightarrow>
                if \<not> was
                then s2\<lparr>disabledExtensions := Some (exts @ [''regex'']),
                        stats := (stats s2)\<lparr>regexSkipped := Suc (regexSkipped (stats s2))\<rparr>\<rparr>
                else s2))"

definition restoreRegexAfterStreaming :: "state \<Rightarrow> state" where
  "restoreRegexAfterStreaming s =
     (let (settings, s1) = getSettings s in
      if \<not> prop_truthy settings ''deferRegexDuringStreaming'' then s1
      else
        (case disabledExtensions s1 of
           None \<Rightarrow> s1
         | Some exts \<Rightarrow>
             if \<not> regexWasAlreadyDisabled s1
             then (case indexOf exts ''regex'' of
                     None \<Rightarrow> s1
                   | Some idx \<Rightarrow> s1\<lparr>disabledExtensions := Some (splice1 idx exts)\<rparr>)
             else s1))"

section \<open>Optimization 2: the RegExp compilation cache\<close>

subsection \<open>The Map operations the cache uses\<close>

text \<open>
  A JavaScript \<open>Map\<close> keeps one entry per key, in insertion order: \<open>set\<close> on a present key
  replaces the value in place, on a new key appends; \<open>delete\<close> removes the key's entry;
  \<open>keys().next().value\<close> is the first key, or \<open>undefined\<close> on an empty map.
\<close>

definition Map_has :: "(string \<times> 'v) list \<Rightarrow> string \<Rightarrow> bool" where
  "Map_has m k = (map_of m k \<noteq> None)"

definition Map_get :: "(string \<times> 'v) list \<Rightarrow> string \<Rightarrow> 'v option" where
  "Map_get m k = map_of m k"

fun Map_set :: "(string \<times> 'v) list \<Rightarrow> string \<Rightarrow> 'v \<Rightarrow> (string \<times> 'v) list" where
  "Map_set [] k v = [(k, v)]"
| "Map_set ((k', v') # m) k v = (if k' = k then (k, v) # m else (k', v') # Map_set m k v)"

fun Map_delete :: "(string \<times> 'v) list \<Rightarrow> string \<Rightarrow> (string \<times> 'v) list" where
  "Map_delete [] k = []"
| "Map_delete ((k', v') # m) k = (if k' = k then m else (k', v') # Map_delete m k)"

fun Map_firstKey :: "(string \<times> 'v) list \<Rightarrow> string option" where
  "Map_firstKey [] = None"
| "Map_firstKey ((k, v) # m) = Some k"

definition CACHE_MAX_SIZE :: nat where
  "CACHE_MAX_SIZE = 500"

subsection \<open>The engine's own constructor\<close>

text \<open>
  The engine's RegExp compiler is not part of the repository: it is a parameter. Given the
  objects that exist and the two arguments it either rejects them or yields the source and
  flag strings of the object to create.
\<close>

type_synonym compiler = "(addr \<Rightarrow> regex_obj) \<Rightarrow> jsval \<Rightarrow> jsval \<Rightarrow> js_error + (string \<times> string)"

text \<open>
  \<open>new OriginalRegExp(pattern, flags)\<close>: on success a fresh object, cursor at zero.
\<close>

definition new_OriginalRegExp :: "compiler \<Rightarrow> state \<Rightarrow> jsval \<Rightarrow> jsval \<Rightarrow> (js_error + addr) \<times> state" where
  "new_OriginalRegExp engine s pattern flgs =
     (case engine (heap s) pattern flgs of
        Inl e \<Rightarrow> (Inl e, s)
      | Inr (src, fl) \<Rightarrow>
          (Inr (heap_next s),
           s\<lparr>heap := (heap s)(heap_next s := \<lparr>re_source = src, re_flags = fl, lastIndex = 0\<rparr>),
             heap_next := Suc (heap_next s)\<rparr>))"

text \<open>
  \<open>OriginalRegExp(pattern, flags)\<close> without \<open>new\<close>: the engine returns a RegExp argument
  itself when no flags are given, and constructs otherwise.
\<close>

definition call_OriginalRegExp :: "compiler \<Rightarrow> state \<Rightarrow> jsval \<Rightarrow> jsval \<Rightarrow> (js_error + addr) \<times> state" where
  "call_OriginalRegExp engine s pattern flgs =
     (case pattern of
        RegExpObj a \<Rightarrow> if flgs = Undefined then (Inr a, s) else new_OriginalRegExp engine s pattern flgs
      | _ \<Rightarrow> new_OriginalRegExp engine s pattern flgs)"

subsection \<open>The wrapper\<close>

text \<open>\<open>String(v ?? '')\<close>; a RegExp object prints as \<open>/source/flags\<close>.\<close>

definition String_or_empty :: "(addr \<Rightarrow> regex_obj) \<Rightarrow> jsval \<Rightarrow> string" where
  "String_or_empty h v =
     (case v of
        Undefined \<Rightarrow> []
      | Null \<Rightarrow> []
      | Str x \<Rightarrow> x
      | RegExpObj a \<Rightarrow> ''/'' @ re_source (h a) @ ''/'' @ re_flags (h a))"

text \<open>
  \<open>pattern instanceof OriginalRegExp\<close> holds exactly when the argument is a RegExp object;
  then the key is built from the object's own \<open>source\<close> (and from its \<open>flags\<close> when the
  flags argument is \<open>undefined\<close>).
\<close>

definition patternStr :: "(addr \<Rightarrow> regex_obj) \<Rightarrow> jsval \<Rightarrow> string" where
  "patternStr h pattern =
     (case pattern of RegExpObj a \<Rightarrow> re_source (h a) | _ \<Rightarrow> String_or_empty h pattern)"

definition flagsStr :: "(addr \<Rightarrow> regex_obj) \<Rightarrow> jsval \<Rightarrow> jsval \<Rightarrow> string" where
  "flagsStr h pattern flgs =
     (case pattern of
        RegExpObj a \<Rightarrow> if flgs = Undefined then re_flags (h a) else String_or_empty h flgs
      | _ \<Rightarrow> String_or_empty h flgs)"

definition cache_key :: "(addr \<Rightarrow> regex_obj) \<Rightarrow> jsval \<Rightarrow> jsval \<Rightarrow> string" where
  "cache_key h pattern flgs = patternStr h pattern @ ''|||'' @ flagsStr h pattern flgs"

text \<open>
  The body of \<open>Cached\<close>. \<open>new_target\<close> says whether it was invoked with \<open>new\<close>. The closure
  reads the module variable \<open>OriginalRegExp\<close>: where that is \<open>null\<close> (a wrapper kept after
  \<open>disableRegexCache\<close>) both the call and the \<open>instanceof\<close> test raise a TypeError.
  A compile error leaves the state as it was: the miss counter is incremented after the
  compilation.
\<close>

definition Cached :: "compiler \<Rightarrow> state \<Rightarrow> bool \<Rightarrow> jsval \<Rightarrow> jsval \<Rightarrow> (js_error + addr) \<times> state" where
  "Cached engine s new_target pattern flgs =
     (case OriginalRegExp s of
        None \<Rightarrow> (Inl TypeError, s)
      | Some orig \<Rightarrow>
          if \<not> new_target then call_OriginalRegExp engine s pattern flgs
          else
            let key = cache_key (heap s) pattern flgs in
            if Map_has (regexCache s) key then
              (case Map_get (regexCache s) key of
                 None \<Rightarrow> (Inl TypeError, s)
               | Some cached \<Rightarrow>
                   (Inr cached,
                    s\<lparr>heap := (heap s)(cached := (heap s cached)\<lparr>lastIndex := 0\<rparr>),
                      stats := (stats s)\<lparr>regexCacheHits := Suc (regexCacheHits (stats s))\<rparr>\<rparr>))
            else
              (case new_OriginalRegExp engine s pattern flgs of
                 (Inl e, s1) \<Rightarrow> (Inl e, s1)
               | (Inr regex, s1) \<Rightarrow>
                   let s2 = s1\<lparr>stats := (stats s1)\<lparr>regexCacheMisses := Suc (regexCacheMisses (stats s1))\<rparr>\<rparr>;
                       s3 = (if length (regexCache s2) \<ge> CACHE_MAX_SIZE
                             then (case Map_firstKey (regexCache s2) of
                                     None \<Rightarrow> s2
                                   | Some firstKey \<Rightarrow> s2\<lparr>regexCache := Map_delete (regexCache s2) firstKey\<rparr>)
                             else s2)
                   in (Inr regex, s3\<lparr>regexCache := Map_set (regexCache s3) key regex\<rparr>)))"

subsection \<open>Installing and removing the wrapper\<close>

fun starts_with :: "string \<Rightarrow> string \<Rightarrow> bool" where
  "starts_with hay [] = True"
| "starts_with [] (n # ns) = False"
| "starts_with (h # hs) (n # ns) = (h = n \<and> starts_with hs ns)"

fun str_includes :: "string \<Rightarrow> string \<Rightarrow> bool" where
  "str_includes [] needle = (needle = [])"
| "str_includes (h # hs) needle = (starts_with (h # hs) needle \<or> str_includes hs needle)"

text \<open>\<open>/AppleWebKit/.test(ua) && !/Chrome\//.test(ua)\<close>\<close>

definition isWebKit :: "string \<Rightarrow> bool" where
  "isWebKit ua = (str_includes ua ''AppleWebKit'' \<and> \<not> str_includes ua ''Chrome/'')"

text \<open>
  \<open>enableRegexCache\<close> saves the global in \<open>OriginalRegExp\<close> and puts a new \<open>Cached\<close> closure
  in its place. The copying of static properties and of the prototype changes nothing the
  model observes. (The shortest variant of the repository has no WebKit guard.)
\<close>

definition enableRegexCache :: "state \<Rightarrow> state" where
  "enableRegexCache s =
     (if OriginalRegExp s \<noteq> None then s
      else if isWebKit (userAgent s) then s
      else s\<lparr>OriginalRegExp := Some (window_RegExp s),
             window_RegExp := CachedFn (closures s),
             closures := Suc (closures s)\<rparr>)"

definition disableRegexCache :: "state \<Rightarrow> state" where
  "disableRegexCache s =
     (case OriginalRegExp s of
        None \<Rightarrow> s
      | Some orig \<Rightarrow> s\<lparr>window_RegExp := orig, OriginalRegExp := None, regexCache := []\<rparr>)"

subsection \<open>What callers do\<close>

text \<open>
  A caller's \<open>new RegExp(p, f)\<close> or \<open>RegExp(p, f)\<close> goes to whatever stands in
  \<open>window.RegExp\<close>; a host function there is taken to be the engine's constructor.
\<close>

definition invoke_RegExp :: "compiler \<Rightarrow> state \<Rightarrow> bool \<Rightarrow> jsval \<Rightarrow> jsval \<Rightarrow> (js_error + addr) \<times> state" where
  "invoke_RegExp engine s new_target pattern flgs =
     (case window_RegExp s of
        CachedFn n \<Rightarrow> Cached engine s new_target pattern flgs
      | HostFn n \<Rightarrow>
          if new_target then new_OriginalRegExp engine s pattern flgs
          else call_OriginalRegExp engine s pattern flgs)"

text \<open>Matching with a RegExp object moves its cursor.\<close>

definition use_cursor :: "addr \<Rightarrow> nat \<Rightarrow> state \<Rightarrow> state" where
  "use_cursor a n s = s\<lparr>heap := (heap s)(a := (heap s a)\<lparr>lastIndex := n\<rparr>)\<rparr>"

datatype cache_op = Enable | Disable | Invoke bool jsval jsval | UseCursor addr nat

fun cache_step :: "compiler \<Rightarrow> state \<Rightarrow> cache_op \<Rightarrow> state" where
  "cache_step engine s Enable = enableRegexCache s"
| "cache_step engine s Disable = disableRegexCache s"
| "cache_step engine s (Invoke new_target pattern flgs) = snd (invoke_RegExp engine s new_target pattern flgs)"
| "cache_step engine s (UseCursor a n) = use_cursor a n s"

definition run_ops :: "compiler \<Rightarrow> state \<Rightarrow> cache_op list \<Rightarrow> state" where
  "run_ops engine s ops = foldl (cache_step engine) s ops"

text \<open>An argument refers only to objects that exist.\<close>

definition allocated :: "state \<Rightarrow> jsval \<Rightarrow> bool" where
  "allocated s v = (case v of RegExpObj a \<Rightarrow> a < heap_next s | _ \<Rightarrow> True)"

section \<open>Optimization 5: streaming CSS mode\<close>

definition enableStreamingCSSMode :: "state \<Rightarrow> state" where
  "enableStreamingCSSMode s = s\<lparr>body_perf_streaming := True\<rparr>"

definition disableStreamingCSSMode :: "state \<Rightarrow> state" where
  "disableStreamingCSSMode s = s\<lparr>body_perf_streaming := False\<rparr>"

section \<open>Optimization 7: scroll preservation across visibility changes\<close>

text \<open>
  Pixel quantities are integers here; fractional scroll offsets and floating-point rounding
  are outside the model, and \<open>scrollTop\<close> after an assignment is the value assigned (the
  browser's own clamping to the scrollable range is not modelled). The handler reads
  \<open>document.hidden\<close>; on show it consumes the snapshot and queues the outer frame callback.
\<close>

definition onVisibilityChange :: "state \<Rightarrow> state" where
  "onVisibilityChange s =
     (let (settings, s1) = getSettings s in
      if \<not> prop_truthy settings ''enabled'' \<or> \<not> prop_truthy settings ''preventScrollJump'' then s1
      else
        (case chat_element s1 of
           None \<Rightarrow> s1
         | Some chatElement \<Rightarrow>
             if document_hidden s1
             then
               let g = elements s1 chatElement in
               s1\<lparr>savedScrollInfo := Some
                    \<lparr>scrollTop = scrollTop g,
                     scrollHeight = scrollHeight g,
                     clientHeight = clientHeight g,
                     distanceFromBottom = scrollHeight g - scrollTop g - clientHeight g\<rparr>\<rparr>
             else
               (case savedScrollInfo s1 of
                  None \<Rightarrow> s1
                | Some info \<Rightarrow>
                    s1\<lparr>savedScrollInfo := None,
                       frame_callbacks := frame_callbacks s1 @ [RestoreOuter chatElement info]\<rparr>)))"

text \<open>
  What the two closures do when the host runs them: the outer one queues the inner one for
  the next frame, the inner one computes the position from the element's geometry at that
  moment and assigns it.
\<close>

fun run_frame_cb :: "state \<Rightarrow> frame_cb \<Rightarrow> state" where
  "run_frame_cb s (RestoreOuter chatElement info) =
     s\<lparr>frame_callbacks := frame_callbacks s @ [RestoreInner chatElement info]\<rparr>"
| "run_frame_cb s (RestoreInner chatElement info) =
     (let g = elements s chatElement;
          newScrollTop = scrollHeight g - clientHeight g - distanceFromBottom info
      in s\<lparr>elements := (elements s)(chatElement := g\<lparr>scrollTop := max 0 newScrollTop\<rparr>),
           stats := (stats s)\<lparr>scrollRestored := Suc (scrollRestored (stats s))\<rparr>\<rparr>)"

text \<open>
  One rendering frame of the host: the callbacks queued before the frame run in order;
  callbacks they queue wait for the next frame.
\<close>

definition run_animation_frame :: "state \<Rightarrow> state" where
  "run_animation_frame s = foldl run_frame_cb (s\<lparr>frame_callbacks := []\<rparr>) (frame_callbacks s)"

text \<open>The host changes the page visibility and fires the event; the host lays the page out.\<close>

definition host_visibility :: "bool \<Rightarrow> state \<Rightarrow> state" where
  "host_visibility hidden s = onVisibilityChange (s\<lparr>document_hidden := hidden\<rparr>)"

definition host_layout :: "nat \<Rightarrow> int \<Rightarrow> int \<Rightarrow> state \<Rightarrow> state" where
  "host_layout e sh ch s =
     s\<lparr>elements := (elements s)(e := (elements s e)\<lparr>scrollHeight := sh, clientHeight := ch\<rparr>)\<rparr>"

text \<open>The user scrolls an element.\<close>

definition host_scroll :: "nat \<Rightarrow> int \<Rightarrow> state \<Rightarrow> state" where
  "host_scroll e st s = s\<lparr>elements := (elements s)(e := (elements s e)\<lparr>scrollTop := st\<rparr>)\<rparr>"

section \<open>Event handlers of the streaming phase\<close>

definition onGenerationStarted :: "string \<Rightarrow> state \<Rightarrow> state" where
  "onGenerationStarted type s =
     (let (settings, s1) = getSettings s in
      if \<not> prop_truthy settings ''enabled'' then s1
      else if type = ''quiet'' then s1
      else s1\<lparr>isGenerating := True\<rparr>)"

text \<open>
  \<open>settings\<close> is the stored object; the nested \<open>getSettings\<close> of
  \<open>disableRegexForStreaming\<close> merges it again, which changes nothing, so the later read of
  \<open>reduceStreamingEffects\<close> sees the value read here.
\<close>

definition onStreamTokenReceived :: "state \<Rightarrow> state" where
  "onStreamTokenReceived s =
     (let (settings, s1) = getSettings s in
      if \<not> prop_truthy settings ''enabled'' \<or> \<not> isGenerating s1 then s1
      else if \<not> regexDisabled s1 then
        let s2 = disableRegexForStreaming s1;
            s3 = s2\<lparr>regexDisabled := True\<rparr>
        in if prop_truthy settings ''reduceStreamingEffects'' then enableStreamingCSSMode s3 else s3
      else s1)"

text \<open>
  The re-render of the last message is the callback handed to \<open>setTimeout\<close>; the host runs
  each queued callback once. What \<open>rerenderLastMessage\<close> then writes into the page (through
  the host's formatter) is outside the model.
\<close>

definition onGenerationEnded :: "state \<Rightarrow> state" where
  "onGenerationEnded s =
     (if \<not> isGenerating s then s
      else
        let s1 = s\<lparr>isGenerating := False\<rparr> in
        if \<not> regexDisabled s1 then s1
        else
          let s2 = s1\<lparr>regexDisabled := False\<rparr>;
              s3 = restoreRegexAfterStreaming s2;
              s4 = disableStreamingCSSMode s3
          in s4\<lparr>timeouts := timeouts s4 @ [RerenderLastMessage]\<rparr>)"

text \<open>\<open>onGenerationStopped\<close> has the same body; only the text it logs differs.\<close>

definition onGenerationStopped :: "state \<Rightarrow> state" where
  "onGenerationStopped s =
     (if \<not> isGenerating s then s
      else
        let s1 = s\<lparr>isGenerating := False\<rparr> in
        if \<not> regexDisabled s1 then s1
        else
          let s2 = s1\<lparr>regexDisabled := False\<rparr>;
              s3 = restoreRegexAfterStreaming s2;
              s4 = disableStreamingCSSMode s3
          in s4\<lparr>timeouts := timeouts s4 @ [RerenderLastMessage]\<rparr>)"

section \<open>Initialization\<close>

text \<open>
  \<open>init\<close> is a straight sequence of calls into the host (jQuery, the event source, the DOM)
  and into the module's own enable functions. Any of them can raise; which one does is the
  host's doing, given here as a function from the step to the error it raises, if any.
\<close>

datatype setup_step =
    ReadSettings
  | CreateSettingsUI
  | Subscribe string
  | EnableRegexCache
  | EnableCSSContainment
  | EnableScrollPreservation
  | EnableGlobalBlurSuppression
  | ConsoleLogLoaded

type_synonym host_faults = "setup_step \<Rightarrow> js_error option"

text \<open>Running the steps in order: the first error raised, or \<open>None\<close> when all complete.\<close>

fun run_setup :: "host_faults \<Rightarrow> setup_step list \<Rightarrow> js_error option" where
  "run_setup faults [] = None"
| "run_setup faults (st # rest) =
     (case faults st of Some e \<Rightarrow> Some e | None \<Rightarrow> run_setup faults rest)"

datatype console_entry = LoggedLoaded | LoggedInitFailed js_error

datatype init_outcome = Returned "console_entry list" | Propagated js_error

definition core_subscriptions :: "setup_step list" where
  "core_subscriptions =
     [Subscribe ''GENERATION_STARTED'', Subscribe ''STREAM_TOKEN_RECEIVED'',
      Subscribe ''GENERATION_ENDED'', Subscribe ''GENERATION_STOPPED'']"

definition message_subscriptions :: "setup_step list" where
  "message_subscriptions =
     [Subscribe ''CHARACTER_MESSAGE_RENDERED'', Subscribe ''USER_MESSAGE_RENDERED'',
      Subscribe ''MESSAGE_UPDATED'', Subscribe ''MESSAGE_SWIPED'',
      Subscribe ''MORE_MESSAGES_LOADED'', Subscribe ''CHAT_CHANGED'']"

definition when_on :: "settings_obj \<Rightarrow> string \<Rightarrow> setup_step \<Rightarrow> setup_step list" where
  "when_on settings k st =
     (if prop_truthy settings ''enabled'' \<and> prop_truthy settings k then [st] else [])"

text \<open>The body of \<open>init\<close> in the full variant (the one that logs \<open>v2.0.0 Loaded\<close>).\<close>

definition setup_full :: "bool \<Rightarrow> settings_obj option \<Rightarrow> setup_step list" where
  "setup_full mobile stored =
     (let settings = merge_settings (defaultSettings mobile) stored in
      [ReadSettings, CreateSettingsUI] @ core_subscriptions
      @ when_on settings ''cacheRegex'' EnableRegexCache
      @ when_on settings ''cssContainment'' EnableCSSContainment
      @ message_subscriptions
      @ when_on settings ''preventScrollJump'' EnableScrollPreservation
      @ when_on settings ''globalBlurSuppression'' EnableGlobalBlurSuppression
      @ [ConsoleLogLoaded])"

text \<open>The full variant wraps the whole body in \<open>try\<close>; the handler logs and returns.\<close>

definition init_full :: "host_faults \<Rightarrow> bool \<Rightarrow> settings_obj option \<Rightarrow> init_outcome" where
  "init_full faults mobile stored =
     (case run_setup faults (setup_full mobile stored) of
        Some err \<Rightarrow> Returned [LoggedInitFailed err]
      | None \<Rightarrow> Returned [LoggedLoaded])"

text \<open>
  The variant with five settings (\<open>src/index.js\<close>): no message subscriptions, no scroll
  preservation, no blur suppression; the body is in \<open>try\<close> as well.
\<close>

definition defaultSettings_css :: "(string \<times> json) list" where
  "defaultSettings_css =
     [(''enabled'', JBool True),
      (''deferRegexDuringStreaming'', JBool True),
      (''cacheRegex'', JBool True),
      (''cssContainment'', JBool True),
      (''reduceStreamingEffects'', JBool True)]"

definition setup_css :: "settings_obj option \<Rightarrow> setup_step list" where
  "setup_css stored =
     (let settings = merge_settings defaultSettings_css stored in
      [ReadSettings, CreateSettingsUI] @ core_subscriptions
      @ when_on settings ''cacheRegex'' EnableRegexCache
      @ when_on settings ''cssContainment'' EnableCSSContainment
      @ [ConsoleLogLoaded])"

definition init_css :: "host_faults \<Rightarrow> settings_obj option \<Rightarrow> init_outcome" where
  "init_css faults stored =
     (case run_setup faults (setup_css stored) of
        Some err \<Rightarrow> Returned [LoggedInitFailed err]
      | None \<Rightarrow> Returned [LoggedLoaded])"

text \<open>
  The variant with three settings (regex deferral and cache only): the same opening steps,
  and no \<open>try\<close> around them, so an error leaves \<open>init\<close> as it was raised.
\<close>

definition defaultSettings_basic :: "(string \<times> json) list" where
  "defaultSettings_basic =
     [(''enabled'', JBool True),
      (''deferRegexDuringStreaming'', JBool True),
      (''cacheRegex'', JBool True)]"

definition setup_basic :: "settings_obj option \<Rightarrow> setup_step list" where
  "setup_basic stored =
     (let settings = merge_settings defaultSettings_basic stored in
      [ReadSettings, CreateSettingsUI] @ core_subscriptions
      @ when_on settings ''cacheRegex'' EnableRegexCache
      @ [ConsoleLogLoaded])"

definition init_basic :: "host_faults \<Rightarrow> settings_obj option \<Rightarrow> init_outcome" where
  "init_basic faults stored =
     (case run_setup faults (setup_basic stored) of
        Some err \<Rightarrow> Propagated err
      | None \<Rightarrow> Returned [LoggedLoaded])"

section \<open>Module load and worked examples\<close>

text \<open>The module-level initializers, over whatever the host holds when the module loads.\<close>

definition module_load :: "state \<Rightarrow> state" where
  "module_load host =
     host\<lparr>isGenerating := False, regexDisabled := False, regexWasAlreadyDisabled := False,
          stats := \<lparr>regexSkipped = 0, regexCacheHits = 0, regexCacheMisses = 0, scrollRestored = 0\<rparr>,
          regexCache := [], OriginalRegExp := None, closures := 0, savedScrollInfo := None\<rparr>"

text \<open>
  A host for the worked examples: a desktop Chromium, no stored settings, an empty list of
  disabled extensions, no RegExp objects yet, a chat element of height zero.
\<close>

definition example_host :: state where
  "example_host =
     \<lparr>module_settings = None,
      disabledExtensions = Some [],
      userAgent = ''Mozilla/5.0 AppleWebKit/537.36 Chrome/120.0 Safari/537.36'',
      window_RegExp = HostFn 0,
      heap = (\<lambda>a. \<lparr>re_source = ''(?:)'', re_flags = [], lastIndex = 0\<rparr>),
      heap_next = 0,
      body_perf_streaming = False,
      timeouts = [],
      frame_callbacks = [],
      document_hidden = False,
      chat_element = Some 0,
      elements = (\<lambda>e. \<lparr>scrollTop = 0, scrollHeight = 0, clientHeight = 0\<rparr>),
      isMobile = False,
      isGenerating = False,
      regexDisabled = False,
      regexWasAlreadyDisabled = False,
      stats = \<lparr>regexSkipped = 0, regexCacheHits = 0, regexCacheMisses = 0, scrollRestored = 0\<rparr>,
      regexCache = [],
      OriginalRegExp = None,
      closures = 0,
      savedScrollInfo = None\<rparr>"

definition example_loaded :: state where
  "example_loaded = module_load example_host"

definition example_enabled :: state where
  "example_enabled = enableRegexCache example_loaded"

text \<open>
  A stand-in for the engine's compiler in the worked examples: it takes any pattern source
  and rejects a flag string with a letter outside \<open>dgimsuvy\<close> or with a repeated letter.
\<close>

definition valid_flags :: "string \<Rightarrow> bool" where
  "valid_flags f = (distinct f \<and> list_all (\<lambda>c. c \<in> set ''dgimsuvy'') f)"

definition example_engine :: compiler where
  "example_engine h pattern flgs =
     (let src = (case pattern of
                   RegExpObj a \<Rightarrow> re_source (h a)
                 | Str x \<Rightarrow> if x = [] then ''(?:)'' else x
                 | Undefined \<Rightarrow> ''(?:)''
                 | Null \<Rightarrow> ''null'');
          fl = (case flgs of
                  Undefined \<Rightarrow> (case pattern of RegExpObj a \<Rightarrow> re_flags (h a) | _ \<Rightarrow> [])
                | Null \<Rightarrow> ''null''
                | Str x \<Rightarrow> x
                | RegExpObj b \<Rightarrow> ''/'' @ re_source (h b) @ ''/'' @ re_flags (h b))
      in if valid_flags fl then Inr (src, fl) else Inl SyntaxError)"

text \<open>A cache at capacity: 500 distinct keys \<open>k|||\<close>, \<open>kx|||\<close>, \<open>kxx|||\<close>, ...\<close>

definition full_cache :: "(string \<times> addr) list" where
  "full_cache = map (\<lambda>i. (CHR ''k'' # replicate i CHR ''x'' @ ''|||'', i)) [0..<500]"

definition example_full :: state where
  "example_full = example_enabled\<lparr>regexCache := full_cache, heap_next := 500\<rparr>"

text \<open>
  The page is scrolled to the bottom of a chat 1000 high in a viewport 300 high, is hidden,
  grows to 1200 while hidden, and is shown again.
\<close>

definition example_hidden :: state where
  "example_hidden =
     host_visibility True (host_scroll 0 700 (host_layout 0 1000 300 example_loaded))"

definition example_shown :: state where
  "example_shown = host_visibility False (host_layout 0 1200 300 example_hidden)"

text \<open>A host in which jQuery is missing: building the settings UI raises.\<close>

definition example_faults :: host_faults where
  "example_faults st = (if st = CreateSettingsUI then Some ReferenceError else None)"

section \<open>Notions used in the proofs\<close>

text \<open>The eviction step of a miss, on the Map alone.\<close>

definition evict_oldest :: "(string \<times> addr) list \<Rightarrow> (string \<times> addr) list" where
  "evict_oldest m =
     (if CACHE_MAX_SIZE \<le> length m
      then (case Map_firstKey m of None \<Rightarrow> m | Some k \<Rightarrow> Map_delete m k)
      else m)"

text \<open>The constructor that was global before the wrapper, wherever it is kept now.\<close>

definition saved_global :: "state \<Rightarrow> ctor" where
  "saved_global s = (case OriginalRegExp s of None \<Rightarrow> window_RegExp s | Some orig \<Rightarrow> orig)"

text \<open>While no wrapper is installed the cache is empty.\<close>

definition cache_idle :: "state \<Rightarrow> bool" where
  "cache_idle s = (OriginalRegExp s = None \<longrightarrow> regexCache s = [])"

text \<open>A setting as the handlers read it, after the merge with the defaults.\<close>

definition setting_on :: "state \<Rightarrow> string \<Rightarrow> bool" where
  "setting_on s k = prop_truthy (fst (getSettings s)) k"

section \<open>Proofs: the RegExp cache\<close>

subsection \<open>The Map operations\<close>

lemma map_of_Map_set_same: "map_of (Map_set m k v) k = Some v"
  by (induction m) auto

lemma length_Map_set: "length (Map_set m k v) \<le> Suc (length m)"
  by (induction m) auto

lemma Map_set_absent: "map_of m k = None \<Longrightarrow> Map_set m k v = m @ [(k, v)]"
  by (induction m) (auto split: if_splits)

lemma evict_oldest_eq: "evict_oldest m = (if CACHE_MAX_SIZE \<le> length m then tl m else m)"
  by (cases m) (auto simp: evict_oldest_def CACHE_MAX_SIZE_def)

lemma length_insert_bounded:
  "length m \<le> CACHE_MAX_SIZE \<Longrightarrow> length (Map_set (evict_oldest m) k r) \<le> CACHE_MAX_SIZE"
  using length_Map_set [of "evict_oldest m" k r]
  by (cases m) (auto simp: evict_oldest_eq CACHE_MAX_SIZE_def split: if_splits)

subsection \<open>The key\<close>

lemma cache_key_cursor:
  "cache_key (h(a := (h a)\<lparr>lastIndex := n\<rparr>)) pattern flgs = cache_key h pattern flgs"
  by (auto simp: cache_key_def patternStr_def flagsStr_def String_or_empty_def split: jsval.splits)

lemma cache_key_fresh:
  "allocated s pattern \<Longrightarrow> allocated s flgs \<Longrightarrow>
   cache_key ((heap s)(heap_next s := obj)) pattern flgs = cache_key (heap s) pattern flgs"
  by (auto simp: cache_key_def patternStr_def flagsStr_def String_or_empty_def allocated_def
      split: jsval.splits)

lemma cache_key_strings: "cache_key h (Str p) (Str f) = p @ ''|||'' @ f"
  by (simp add: cache_key_def patternStr_def flagsStr_def String_or_empty_def)

subsection \<open>What one invocation does\<close>

lemma new_OriginalRegExp_frame:
  "regexCache (snd (new_OriginalRegExp engine s p f)) = regexCache s
   \<and> OriginalRegExp (snd (new_OriginalRegExp engine s p f)) = OriginalRegExp s
   \<and> window_RegExp (snd (new_OriginalRegExp engine s p f)) = window_RegExp s"
  by (simp add: new_OriginalRegExp_def split: sum.splits prod.splits)

lemma call_OriginalRegExp_frame:
  "regexCache (snd (call_OriginalRegExp engine s p f)) = regexCache s
   \<and> OriginalRegExp (snd (call_OriginalRegExp engine s p f)) = OriginalRegExp s
   \<and> window_RegExp (snd (call_OriginalRegExp engine s p f)) = window_RegExp s"
  by (simp add: call_OriginalRegExp_def new_OriginalRegExp_frame split: jsval.splits)

lemma Cached_disabled:
  "OriginalRegExp s = None \<Longrightarrow> Cached engine s nt pattern flgs = (Inl TypeError, s)"
  by (simp add: Cached_def)

lemma Cached_hit:
  assumes "OriginalRegExp s \<noteq> None"
    and "map_of (regexCache s) (cache_key (heap s) pattern flgs) = Some r"
  shows "Cached engine s True pattern flgs =
      (Inr r, s\<lparr>heap := (heap s)(r := (heap s r)\<lparr>lastIndex := 0\<rparr>),
                stats := (stats s)\<lparr>regexCacheHits := Suc (regexCacheHits (stats s))\<rparr>\<rparr>)"
  using assms
  by (auto simp: Cached_def Map_has_def Map_get_def Let_def split: option.splits)

lemma Cached_miss:
  assumes "OriginalRegExp s \<noteq> None"
    and "map_of (regexCache s) (cache_key (heap s) pattern flgs) = None"
    and "Cached engine s True pattern flgs = (Inr r, s1)"
  shows "regexCache s1 = evict_oldest (regexCache s) @ [(cache_key (heap s) pattern flgs, r)]
       \<and> r = heap_next s"
proof -
  obtain src fl where e: "engine (heap s) pattern flgs = Inr (src, fl)"
    using assms
    by (auto simp: Cached_def Map_has_def new_OriginalRegExp_def Let_def
        split: option.splits sum.splits)
  have absent: "map_of (evict_oldest (regexCache s)) (cache_key (heap s) pattern flgs) = None"
    using assms(2) by (cases "regexCache s") (auto simp: evict_oldest_eq split: if_splits)
  have "regexCache s1 = Map_set (evict_oldest (regexCache s)) (cache_key (heap s) pattern flgs) r
      \<and> r = heap_next s"
    using assms e
    by (auto simp: Cached_def Map_has_def new_OriginalRegExp_def Let_def evict_oldest_def
        split: option.splits)
  then show ?thesis
    using absent by (simp add: Map_set_absent)
qed

lemma Cached_new_result:
  assumes "OriginalRegExp s \<noteq> None" "allocated s pattern" "allocated s flgs"
    and "Cached engine s True pattern flgs = (Inr r, s1)"
  shows "OriginalRegExp s1 = OriginalRegExp s
       \<and> map_of (regexCache s1) (cache_key (heap s) pattern flgs) = Some r
       \<and> cache_key (heap s1) pattern flgs = cache_key (heap s) pattern flgs"
  using assms
  by (auto simp: Cached_def Map_has_def Map_get_def new_OriginalRegExp_def Let_def
      map_of_Map_set_same cache_key_cursor cache_key_fresh
      split: option.splits sum.splits prod.splits if_splits)

lemma Cached_cache:
  "regexCache (snd (Cached engine s nt pattern flgs)) = regexCache s
   \<or> (\<exists>k r. regexCache (snd (Cached engine s nt pattern flgs))
              = Map_set (evict_oldest (regexCache s)) k r)"
  by (auto simp: Cached_def Map_has_def Map_get_def new_OriginalRegExp_def Let_def evict_oldest_def
      call_OriginalRegExp_frame
      split: option.splits sum.splits prod.splits)

lemma Cached_frame:
  "OriginalRegExp (snd (Cached engine s nt pattern flgs)) = OriginalRegExp s
   \<and> window_RegExp (snd (Cached engine s nt pattern flgs)) = window_RegExp s"
  by (auto simp: Cached_def Map_has_def Map_get_def new_OriginalRegExp_def Let_def
      call_OriginalRegExp_frame
      split: option.splits sum.splits prod.splits)

lemma Cached_length:
  assumes "length (regexCache s) \<le> CACHE_MAX_SIZE"
  shows "length (regexCache (snd (Cached engine s nt pattern flgs))) \<le> CACHE_MAX_SIZE"
  using Cached_cache [of engine s nt pattern flgs] assms
  by (auto simp: length_insert_bounded)

subsection \<open>Invariants of any sequence of operations\<close>

lemma cache_step_length:
  "length (regexCache s) \<le> CACHE_MAX_SIZE \<Longrightarrow>
   length (regexCache (cache_step engine s op)) \<le> CACHE_MAX_SIZE"
  by (cases op)
     (auto simp: enableRegexCache_def disableRegexCache_def invoke_RegExp_def use_cursor_def
        Cached_length new_OriginalRegExp_frame call_OriginalRegExp_frame
        split: option.splits ctor.splits)

lemma run_ops_length:
  "length (regexCache s) \<le> CACHE_MAX_SIZE \<Longrightarrow>
   length (regexCache (run_ops engine s ops)) \<le> CACHE_MAX_SIZE"
  unfolding run_ops_def
  by (induction ops arbitrary: s) (simp_all add: cache_step_length)

lemma cache_step_saved_global: "saved_global (cache_step engine s op) = saved_global s"
  by (cases op)
     (auto simp: saved_global_def enableRegexCache_def disableRegexCache_def invoke_RegExp_def
        use_cursor_def Cached_frame new_OriginalRegExp_frame call_OriginalRegExp_frame
        split: option.splits ctor.splits)

lemma cache_step_idle: "cache_idle s \<Longrightarrow> cache_idle (cache_step engine s op)"
  by (cases op)
     (auto simp: cache_idle_def enableRegexCache_def disableRegexCache_def invoke_RegExp_def
        use_cursor_def Cached_frame Cached_disabled new_OriginalRegExp_frame
        call_OriginalRegExp_frame
        split: option.splits ctor.splits)

lemma run_ops_saved_global: "saved_global (run_ops engine s ops) = saved_global s"
  unfolding run_ops_def
  by (induction ops arbitrary: s) (simp_all add: cache_step_saved_global)

lemma run_ops_idle: "cache_idle s \<Longrightarrow> cache_idle (run_ops engine s ops)"
  unfolding run_ops_def
  by (induction ops arbitrary: s) (simp_all add: cache_step_idle)

subsection \<open>The worked examples\<close>

lemma example_not_WebKit: "\<not> isWebKit (userAgent example_host)"
  by (simp add: isWebKit_def example_host_def)

lemma example_enabled_eq:
  "example_enabled = example_loaded\<lparr>OriginalRegExp := Some (HostFn 0),
       window_RegExp := CachedFn 0, closures := Suc 0\<rparr>"
  using example_not_WebKit
  by (simp add: example_enabled_def enableRegexCache_def example_loaded_def module_load_def
      example_host_def)

lemma example_enabled_fields:
  "OriginalRegExp example_enabled = Some (HostFn 0)"
  "window_RegExp example_enabled = CachedFn 0"
  "regexCache example_enabled = []"
  "heap_next example_enabled = 0"
  by (simp_all add: example_enabled_eq example_loaded_def module_load_def example_host_def)

lemma example_loaded_fields:
  "OriginalRegExp example_loaded = None"
  "window_RegExp example_loaded = HostFn 0"
  "regexCache example_loaded = []"
  by (simp_all add: example_loaded_def module_load_def example_host_def)

lemma example_miss:
  assumes "OriginalRegExp s = Some orig"
    and "map_of (regexCache s) (cache_key (heap s) pattern flgs) = None"
    and "engine (heap s) pattern flgs = Inr (src, fl)"
  shows "fst (Cached engine s True pattern flgs) = Inr (heap_next s)"
  using assms
  by (simp add: Cached_def Map_has_def new_OriginalRegExp_def Let_def)

lemma example_engine_accepts: "example_engine h (Str ''a+'') (Str ''g'') = Inr (''a+'', ''g'')"
  by (simp add: example_engine_def valid_flags_def)

lemma example_engine_rejects: "example_engine h (Str ''a'') (Str ''b|||'') = Inl SyntaxError"
  by (simp add: example_engine_def valid_flags_def)

lemma full_cache_length: "length full_cache = 500"
  by (simp add: full_cache_def)

lemma full_cache_absent: "map_of full_cache (CHR ''q'' # rest) = None"
  by (auto simp: full_cache_def map_of_eq_None_iff)

lemma full_cache_first: "map_of full_cache ''k|||'' = Some 0"
  by (simp add: full_cache_def upt_rec [of 0])

lemma example_full_fields:
  "OriginalRegExp example_full = Some (HostFn 0)"
  "regexCache example_full = full_cache"
  "heap_next example_full = 500"
  by (simp_all add: example_full_def example_enabled_fields)

lemma example_run:
  "regexCache (run_ops example_engine example_loaded
      [Enable, Invoke True (Str ''a+'') (Str ''g''), Invoke True (Str ''a+'') (Str ''g'')])
     = [(''a+|||g'', 0)]"
proof -
  let ?first = "Cached example_engine example_enabled True (Str ''a+'') (Str ''g'')"
  have en: "OriginalRegExp example_enabled \<noteq> None"
    by (simp add: example_enabled_fields)
  have "fst ?first = Inr (heap_next example_enabled)"
    using example_engine_accepts
    by (intro example_miss [OF example_enabled_fields(1)]) (simp_all add: example_enabled_fields)
  then have first: "?first = (Inr 0, snd ?first)"
    by (simp add: prod_eq_iff example_enabled_fields)
  from Cached_miss [OF en _ first]
  have c1: "regexCache (snd ?first) = [(''a+|||g'', 0)]"
    by (simp add: example_enabled_fields evict_oldest_eq CACHE_MAX_SIZE_def cache_key_strings)
  from Cached_new_result [OF en _ _ first]
  have en1: "OriginalRegExp (snd ?first) \<noteq> None"
    and key1: "map_of (regexCache (snd ?first)) (cache_key (heap (snd ?first)) (Str ''a+'') (Str ''g'')) = Some 0"
    using en by (simp_all add: allocated_def)
  have w: "window_RegExp example_enabled = CachedFn 0"
    "window_RegExp (snd ?first) = CachedFn 0"
    using Cached_frame [of example_engine example_enabled True "Str ''a+''" "Str ''g''"]
    by (simp_all add: example_enabled_fields)
  show ?thesis
    using c1 w
    by (simp add: run_ops_def example_enabled_def [symmetric] invoke_RegExp_def
        Cached_hit [OF en1 key1])
qed

subsection \<open>Properties of the cache\<close>

text \<open>
  C1. With the cache enabled, a constructor call that returned an object is followed by a
  second constructor call with the same pattern and flag arguments. Whatever the caller did
  to an object's cursor in between (nothing, when \<open>n\<close> is the cursor's value already), the
  second call returns the very same reference, and at that moment the object's \<open>lastIndex\<close>
  is 0. The arguments refer to existing objects only.
\<close>

theorem cached_twice_same_object:
  assumes "OriginalRegExp s \<noteq> None" "allocated s pattern" "allocated s flgs"
    and "Cached engine s True pattern flgs = (Inr r, s1)"
  shows "fst (Cached engine s1 True pattern flgs) = Inr r
       \<and> lastIndex (heap (snd (Cached engine s1 True pattern flgs)) r) = 0
       \<and> fst (Cached engine (use_cursor a n s1) True pattern flgs) = Inr r
       \<and> lastIndex (heap (snd (Cached engine (use_cursor a n s1) True pattern flgs)) r) = 0"
proof -
  from Cached_new_result [OF assms]
  have en: "OriginalRegExp s1 = OriginalRegExp s"
    and got: "map_of (regexCache s1) (cache_key (heap s) pattern flgs) = Some r"
    and key: "cache_key (heap s1) pattern flgs = cache_key (heap s) pattern flgs"
    by simp_all
  have direct: "OriginalRegExp s1 \<noteq> None"
    "map_of (regexCache s1) (cache_key (heap s1) pattern flgs) = Some r"
    using en got key assms(1) by simp_all
  let ?t = "use_cursor a n s1"
  have moved: "OriginalRegExp ?t \<noteq> None"
    "map_of (regexCache ?t) (cache_key (heap ?t) pattern flgs) = Some r"
    using direct by (simp_all add: use_cursor_def cache_key_cursor)
  show ?thesis
    by (simp add: Cached_hit [OF direct] Cached_hit [OF moved])
qed

theorem cached_twice_same_object_witness:
  "OriginalRegExp example_enabled \<noteq> None
   \<and> fst (Cached example_engine example_enabled True (Str ''a+'') (Str ''g'')) = Inr 0
   \<and> lastIndex (heap (use_cursor 0 2
        (snd (Cached example_engine example_enabled True (Str ''a+'') (Str ''g'')))) 0) = 2
   \<and> fst (Cached example_engine
        (use_cursor 0 2 (snd (Cached example_engine example_enabled True (Str ''a+'') (Str ''g''))))
        True (Str ''a+'') (Str ''g'')) = Inr 0
   \<and> lastIndex (heap (snd (Cached example_engine
        (use_cursor 0 2 (snd (Cached example_engine example_enabled True (Str ''a+'') (Str ''g''))))
        True (Str ''a+'') (Str ''g''))) 0) = 0"
proof -
  let ?first = "Cached example_engine example_enabled True (Str ''a+'') (Str ''g'')"
  have en: "OriginalRegExp example_enabled \<noteq> None"
    by (simp add: example_enabled_fields)
  have "fst ?first = Inr (heap_next example_enabled)"
    using example_engine_accepts
    by (intro example_miss [OF example_enabled_fields(1)]) (simp_all add: example_enabled_fields)
  then have res: "fst ?first = Inr 0"
    by (simp add: example_enabled_fields)
  then have first: "?first = (Inr 0, snd ?first)"
    by (simp add: prod_eq_iff)
  have moved: "lastIndex (heap (use_cursor 0 2 (snd ?first)) 0) = 2"
    by (simp add: use_cursor_def)
  from cached_twice_same_object [OF en _ _ first, of 0 2] en res moved
  show ?thesis
    by (simp add: allocated_def)
qed

text \<open>
  C2. Starting from module load the cache never holds more than \<open>CACHE_MAX_SIZE\<close> = 500
  entries, after any sequence of enables, disables, invocations and cursor moves. A miss
  that compiles while the cache is at capacity drops exactly the first (oldest inserted)
  entry and appends the new one. A hit leaves the entries and their order as they were.
\<close>

theorem cache_bounded_fifo:
  "length (regexCache (run_ops engine (module_load host) ops)) \<le> CACHE_MAX_SIZE
   \<and> (OriginalRegExp s \<noteq> None
        \<and> \<not> Map_has (regexCache s) (cache_key (heap s) pattern flgs)
        \<and> CACHE_MAX_SIZE \<le> length (regexCache s)
        \<and> Cached engine s True pattern flgs = (Inr r, s1)
      \<longrightarrow> regexCache s1 = tl (regexCache s) @ [(cache_key (heap s) pattern flgs, r)])
   \<and> (OriginalRegExp s \<noteq> None
        \<and> Map_has (regexCache s) (cache_key (heap s) pattern flgs)
      \<longrightarrow> regexCache (snd (Cached engine s True pattern flgs)) = regexCache s)"
proof (intro conjI impI)
  show "length (regexCache (run_ops engine (module_load host) ops)) \<le> CACHE_MAX_SIZE"
    by (rule run_ops_length) (simp add: module_load_def)
next
  assume "OriginalRegExp s \<noteq> None
        \<and> \<not> Map_has (regexCache s) (cache_key (heap s) pattern flgs)
        \<and> CACHE_MAX_SIZE \<le> length (regexCache s)
        \<and> Cached engine s True pattern flgs = (Inr r, s1)"
  then show "regexCache s1 = tl (regexCache s) @ [(cache_key (heap s) pattern flgs, r)]"
    using Cached_miss [of s pattern flgs engine r s1]
    by (simp add: Map_has_def evict_oldest_eq)
next
  assume "OriginalRegExp s \<noteq> None
        \<and> Map_has (regexCache s) (cache_key (heap s) pattern flgs)"
  then show "regexCache (snd (Cached engine s True pattern flgs)) = regexCache s"
    by (auto simp: Map_has_def Cached_hit)
qed

theorem cache_bounded_fifo_witness:
  "regexCache (run_ops example_engine example_loaded
      [Enable, Invoke True (Str ''a+'') (Str ''g''), Invoke True (Str ''a+'') (Str ''g'')])
     = [(''a+|||g'', 0)]
   \<and> length (regexCache (run_ops example_engine (module_load example_host)
      [Enable, Invoke True (Str ''a+'') (Str ''g''), Invoke True (Str ''a+'') (Str ''g'')]))
     \<le> CACHE_MAX_SIZE
   \<and> OriginalRegExp example_full \<noteq> None
   \<and> \<not> Map_has (regexCache example_full) (cache_key (heap example_full) (Str ''q'') (Str ''g''))
   \<and> CACHE_MAX_SIZE \<le> length (regexCache example_full)
   \<and> fst (Cached example_engine example_full True (Str ''q'') (Str ''g'')) = Inr 500
   \<and> regexCache (snd (Cached example_engine example_full True (Str ''q'') (Str ''g'')))
       = tl full_cache @ [(''q|||g'', 500)]
   \<and> Map_has (regexCache example_full) (cache_key (heap example_full) (Str ''k'') (Str []))
   \<and> regexCache (snd (Cached example_engine example_full True (Str ''k'') (Str []))) = full_cache"
proof -
  let ?miss = "Cached example_engine example_full True (Str ''q'') (Str ''g'')"
  have en: "OriginalRegExp example_full \<noteq> None"
    by (simp add: example_full_fields)
  have absent: "\<not> Map_has (regexCache example_full) (cache_key (heap example_full) (Str ''q'') (Str ''g''))"
    by (simp add: Map_has_def example_full_fields cache_key_strings full_cache_absent)
  have full: "CACHE_MAX_SIZE \<le> length (regexCache example_full)"
    by (simp add: CACHE_MAX_SIZE_def example_full_fields full_cache_length)
  have "example_engine (heap example_full) (Str ''q'') (Str ''g'') = Inr (''q'', ''g'')"
    by (simp add: example_engine_def valid_flags_def)
  then have "fst ?miss = Inr (heap_next example_full)"
    using absent by (intro example_miss [OF example_full_fields(1)]) (simp_all add: Map_has_def)
  then have res: "fst ?miss = Inr 500"
    by (simp add: example_full_fields)
  then have miss: "?miss = (Inr 500, snd ?miss)"
    by (simp add: prod_eq_iff)
  have present: "Map_has (regexCache example_full) (cache_key (heap example_full) (Str ''k'') (Str []))"
    by (simp add: Map_has_def example_full_fields cache_key_strings full_cache_first)
  have bound: "length (regexCache (run_ops example_engine (module_load example_host)
      [Enable, Invoke True (Str ''a+'') (Str ''g''), Invoke True (Str ''a+'') (Str ''g'')]))
     \<le> CACHE_MAX_SIZE"
    using cache_bounded_fifo [of example_engine example_host] by blast
  have evicted: "regexCache (snd ?miss) = tl full_cache @ [(''q|||g'', 500)]"
    using cache_bounded_fifo [of example_engine example_host "[]" example_full "Str ''q''" "Str ''g''"
        500 "snd ?miss"] en absent full miss
    by (simp add: example_full_fields cache_key_strings)
  have kept: "regexCache (snd (Cached example_engine example_full True (Str ''k'') (Str []))) = full_cache"
    using cache_bounded_fifo [of example_engine example_host "[]" example_full "Str ''k''" "Str []"]
      en present
    by (simp add: example_full_fields)
  show ?thesis
    using example_run bound en absent full res evicted present kept by blast
qed

text \<open>
  C7. \<open>disableRegexCache\<close> puts the saved constructor back into \<open>window.RegExp\<close>, forgets
  it and empties the cache. A second call changes nothing, and neither does a call while no
  wrapper is installed. From a state with no wrapper and an empty cache, after any sequence
  of enables, disables, invocations and cursor moves, a final disable leaves
  \<open>window.RegExp\<close> equal to what it was at the start, with no saved constructor and an
  empty cache.
\<close>

theorem disable_restores_and_idempotent:
  "disableRegexCache (disableRegexCache s) = disableRegexCache s
   \<and> (OriginalRegExp s = None \<longrightarrow> disableRegexCache s = s)
   \<and> (OriginalRegExp s = Some orig \<longrightarrow>
        window_RegExp (disableRegexCache s) = orig
        \<and> OriginalRegExp (disableRegexCache s) = None
        \<and> regexCache (disableRegexCache s) = [])
   \<and> (OriginalRegExp s = None \<and> regexCache s = [] \<longrightarrow>
        window_RegExp (disableRegexCache (run_ops engine s ops)) = window_RegExp s
        \<and> OriginalRegExp (disableRegexCache (run_ops engine s ops)) = None
        \<and> regexCache (disableRegexCache (run_ops engine s ops)) = [])"
proof (intro conjI impI)
  show "disableRegexCache (disableRegexCache s) = disableRegexCache s"
    by (simp add: disableRegexCache_def split: option.splits)
  show "disableRegexCache s = s" if "OriginalRegExp s = None"
    using that by (simp add: disableRegexCache_def)
  show "window_RegExp (disableRegexCache s) = orig" if "OriginalRegExp s = Some orig"
    using that by (simp add: disableRegexCache_def)
  show "OriginalRegExp (disableRegexCache s) = None" if "OriginalRegExp s = Some orig"
    using that by (simp add: disableRegexCache_def)
  show "regexCache (disableRegexCache s) = []" if "OriginalRegExp s = Some orig"
    using that by (simp add: disableRegexCache_def)
next
  assume a: "OriginalRegExp s = None \<and> regexCache s = []"
  let ?t = "run_ops engine s ops"
  have g: "saved_global ?t = window_RegExp s"
    using a by (simp add: run_ops_saved_global) (simp add: saved_global_def)
  have i: "cache_idle ?t"
    using a by (intro run_ops_idle) (simp add: cache_idle_def)
  show "window_RegExp (disableRegexCache ?t) = window_RegExp s"
    using g by (simp add: disableRegexCache_def saved_global_def split: option.splits)
  show "OriginalRegExp (disableRegexCache ?t) = None"
    by (simp add: disableRegexCache_def split: option.splits)
  show "regexCache (disableRegexCache ?t) = []"
    using i by (simp add: disableRegexCache_def cache_idle_def split: option.splits)
qed

theorem disable_restores_and_idempotent_witness:
  "OriginalRegExp example_full = Some (HostFn 0)
   \<and> regexCache example_full \<noteq> []
   \<and> window_RegExp example_full = CachedFn 0
   \<and> window_RegExp (disableRegexCache example_full) = HostFn 0
   \<and> OriginalRegExp (disableRegexCache example_full) = None
   \<and> regexCache (disableRegexCache example_full) = []
   \<and> disableRegexCache (disableRegexCache example_full) = disableRegexCache example_full
   \<and> OriginalRegExp example_loaded = None
   \<and> regexCache example_loaded = []
   \<and> disableRegexCache example_loaded = example_loaded
   \<and> window_RegExp (run_ops example_engine example_loaded
        [Enable, Invoke True (Str ''a+'') (Str ''g'')]) = CachedFn 0
   \<and> window_RegExp (disableRegexCache (run_ops example_engine example_loaded
        [Enable, Invoke True (Str ''a+'') (Str ''g'')])) = HostFn 0
   \<and> regexCache (disableRegexCache (run_ops example_engine example_loaded
        [Enable, Invoke True (Str ''a+'') (Str ''g'')])) = []"
proof -
  have nonempty: "regexCache example_full \<noteq> []"
    using full_cache_length by (auto simp: example_full_fields)
  have wrapped: "window_RegExp example_full = CachedFn 0"
    by (simp add: example_full_def example_enabled_fields)
  have installed: "window_RegExp (run_ops example_engine example_loaded
        [Enable, Invoke True (Str ''a+'') (Str ''g'')]) = CachedFn 0"
    using Cached_frame [of example_engine example_enabled True "Str ''a+''" "Str ''g''"]
    by (simp add: run_ops_def invoke_RegExp_def example_enabled_def [symmetric]
        example_enabled_fields)
  from disable_restores_and_idempotent [of example_full "HostFn 0"]
    disable_restores_and_idempotent [of example_loaded _ example_engine
      "[Enable, Invoke True (Str ''a+'') (Str ''g'')]"]
    nonempty wrapped installed
  show ?thesis
    by (simp add: example_full_fields example_loaded_fields)
qed

lemma Cached_miss_object:
  assumes "OriginalRegExp s \<noteq> None"
    and "map_of (regexCache s) (cache_key (heap s) pattern flgs) = None"
    and "Cached engine s True pattern flgs = (Inr r, s1)"
  shows "engine (heap s) pattern flgs = Inr (re_source (heap s1 r), re_flags (heap s1 r))
       \<and> lastIndex (heap s1 r) = 0"
  using assms
  by (auto simp: Cached_def Map_has_def new_OriginalRegExp_def Let_def
      split: option.splits sum.splits if_splits)

text \<open>
  C10. The key is the pattern source, then \<open>|||\<close>, then the flags, so it does not determine
  the pair: pattern \<open>a|||b\<close> with no flags and pattern \<open>a\<close> with flags \<open>b|||\<close> have one
  key. With the cache enabled, once a request has returned an object \<open>r\<close>, that object is
  the cache's entry under the key, and when the request was a miss it holds what the engine
  compiled from the request's own pattern and flags. A later request whose string arguments
  give the same key returns \<open>r\<close>, whatever the engine would make of the later arguments: the
  cache and the object's source and flags stay as they were, nothing is compiled and no
  miss is counted.
\<close>

theorem cache_key_not_injective:
  "(Str ''a|||b'', Str []) \<noteq> (Str ''a'', Str ''b|||'')
   \<and> cache_key h (Str ''a|||b'') (Str []) = cache_key h (Str ''a'') (Str ''b|||'')
   \<and> (OriginalRegExp s \<noteq> None
        \<and> cache_key (heap s) (Str p1) (Str f1) = cache_key (heap s) (Str p2) (Str f2)
        \<and> Cached engine s True (Str p1) (Str f1) = (Inr r, s1)
      \<longrightarrow> Map_get (regexCache s1) (cache_key (heap s1) (Str p2) (Str f2)) = Some r
          \<and> (\<not> Map_has (regexCache s) (cache_key (heap s) (Str p1) (Str f1)) \<longrightarrow>
                engine (heap s) (Str p1) (Str f1)
                  = Inr (re_source (heap s1 r), re_flags (heap s1 r)))
          \<and> fst (Cached engine' s1 True (Str p2) (Str f2)) = Inr r
          \<and> regexCache (snd (Cached engine' s1 True (Str p2) (Str f2))) = regexCache s1
          \<and> re_source (heap (snd (Cached engine' s1 True (Str p2) (Str f2))) r)
              = re_source (heap s1 r)
          \<and> re_flags (heap (snd (Cached engine' s1 True (Str p2) (Str f2))) r)
              = re_flags (heap s1 r)
          \<and> heap_next (snd (Cached engine' s1 True (Str p2) (Str f2))) = heap_next s1
          \<and> regexCacheMisses (stats (snd (Cached engine' s1 True (Str p2) (Str f2))))
              = regexCacheMisses (stats s1))"
proof (intro conjI impI)
  show "(Str ''a|||b'', Str []) \<noteq> (Str ''a'', Str ''b|||'')" by simp
  show "cache_key h (Str ''a|||b'') (Str []) = cache_key h (Str ''a'') (Str ''b|||'')"
    by (simp add: cache_key_strings)
next
  assume a: "OriginalRegExp s \<noteq> None
        \<and> cache_key (heap s) (Str p1) (Str f1) = cache_key (heap s) (Str p2) (Str f2)
        \<and> Cached engine s True (Str p1) (Str f1) = (Inr r, s1)"
  have k: "cache_key (heap s1) (Str p2) (Str f2) = cache_key (heap s) (Str p1) (Str f1)"
    using a by (simp add: cache_key_strings)
  from a have stored: "OriginalRegExp s1 = OriginalRegExp s
       \<and> map_of (regexCache s1) (cache_key (heap s) (Str p1) (Str f1)) = Some r"
    using Cached_new_result [of s "Str p1" "Str f1" engine r s1]
    by (simp add: allocated_def)
  with a k have h: "Cached engine' s1 True (Str p2) (Str f2) =
      (Inr r, s1\<lparr>heap := (heap s1)(r := (heap s1 r)\<lparr>lastIndex := 0\<rparr>),
                stats := (stats s1)\<lparr>regexCacheHits := Suc (regexCacheHits (stats s1))\<rparr>\<rparr>)"
    by (intro Cached_hit) simp_all
  show "Map_get (regexCache s1) (cache_key (heap s1) (Str p2) (Str f2)) = Some r"
    using stored k by (simp add: Map_get_def)
  show "engine (heap s) (Str p1) (Str f1) = Inr (re_source (heap s1 r), re_flags (heap s1 r))"
    if "\<not> Map_has (regexCache s) (cache_key (heap s) (Str p1) (Str f1))"
    using Cached_miss_object [of s "Str p1" "Str f1" engine r s1] a that
    by (simp add: Map_has_def)
  show "fst (Cached engine' s1 True (Str p2) (Str f2)) = Inr r"
    by (simp add: h)
  show "regexCache (snd (Cached engine' s1 True (Str p2) (Str f2))) = regexCache s1"
    by (simp add: h)
  show "re_source (heap (snd (Cached engine' s1 True (Str p2) (Str f2))) r) = re_source (heap s1 r)"
    by (simp add: h)
  show "re_flags (heap (snd (Cached engine' s1 True (Str p2) (Str f2))) r) = re_flags (heap s1 r)"
    by (simp add: h)
  show "heap_next (snd (Cached engine' s1 True (Str p2) (Str f2))) = heap_next s1"
    by (simp add: h)
  show "regexCacheMisses (stats (snd (Cached engine' s1 True (Str p2) (Str f2))))
      = regexCacheMisses (stats s1)"
    by (simp add: h)
qed

theorem cache_key_not_injective_witness:
  "OriginalRegExp example_enabled \<noteq> None
   \<and> cache_key (heap example_enabled) (Str ''a|||b'') (Str [])
       = cache_key (heap example_enabled) (Str ''a'') (Str ''b|||'')
   \<and> \<not> Map_has (regexCache example_enabled)
        (cache_key (heap example_enabled) (Str ''a|||b'') (Str []))
   \<and> fst (Cached example_engine example_enabled True (Str ''a|||b'') (Str [])) = Inr 0
   \<and> Map_get (regexCache (snd (Cached example_engine example_enabled True (Str ''a|||b'') (Str []))))
        ''a|||b|||'' = Some 0
   \<and> re_source (heap (snd (Cached example_engine example_enabled True (Str ''a|||b'') (Str []))) 0)
       = ''a|||b''
   \<and> re_flags (heap (snd (Cached example_engine example_enabled True (Str ''a|||b'') (Str []))) 0)
       = []
   \<and> example_engine (heap (snd (Cached example_engine example_enabled True (Str ''a|||b'') (Str []))))
        (Str ''a'') (Str ''b|||'') = Inl SyntaxError
   \<and> fst (Cached example_engine
        (snd (Cached example_engine example_enabled True (Str ''a|||b'') (Str [])))
        True (Str ''a'') (Str ''b|||'')) = Inr 0
   \<and> re_source (heap (snd (Cached example_engine
        (snd (Cached example_engine example_enabled True (Str ''a|||b'') (Str [])))
        True (Str ''a'') (Str ''b|||''))) 0) = ''a|||b''
   \<and> regexCache (snd (Cached example_engine
        (snd (Cached example_engine example_enabled True (Str ''a|||b'') (Str [])))
        True (Str ''a'') (Str ''b|||''))) = [(''a|||b|||'', 0)]"
proof -
  let ?first = "Cached example_engine example_enabled True (Str ''a|||b'') (Str [])"
  let ?second = "Cached example_engine (snd ?first) True (Str ''a'') (Str ''b|||'')"
  have en: "OriginalRegExp example_enabled \<noteq> None"
    by (simp add: example_enabled_fields)
  have eng: "example_engine (heap example_enabled) (Str ''a|||b'') (Str []) = Inr (''a|||b'', [])"
    by (simp add: example_engine_def valid_flags_def)
  have absent: "\<not> Map_has (regexCache example_enabled)
      (cache_key (heap example_enabled) (Str ''a|||b'') (Str []))"
    by (simp add: Map_has_def example_enabled_fields)
  from eng have "fst ?first = Inr (heap_next example_enabled)"
    by (intro example_miss [OF example_enabled_fields(1)]) (simp_all add: example_enabled_fields)
  then have res: "fst ?first = Inr 0"
    by (simp add: example_enabled_fields)
  then have first: "?first = (Inr 0, snd ?first)"
    by (simp add: prod_eq_iff)
  have same: "cache_key (heap example_enabled) (Str ''a|||b'') (Str [])
       = cache_key (heap example_enabled) (Str ''a'') (Str ''b|||'')"
    by (simp add: cache_key_strings)
  have cache1: "regexCache (snd ?first) = [(''a|||b|||'', 0)]"
    using Cached_miss [OF en _ first]
    by (simp add: example_enabled_fields evict_oldest_eq CACHE_MAX_SIZE_def cache_key_strings)
  from cache_key_not_injective [of _ example_enabled "''a|||b''" "[]" "''a''" "''b|||''"
      example_engine 0 "snd ?first" example_engine] en same first absent
  have got: "Map_get (regexCache (snd ?first)) (cache_key (heap (snd ?first)) (Str ''a'') (Str ''b|||''))
        = Some 0"
    and compiled: "example_engine (heap example_enabled) (Str ''a|||b'') (Str [])
        = Inr (re_source (heap (snd ?first) 0), re_flags (heap (snd ?first) 0))"
    and hit: "fst ?second = Inr 0"
    and kept: "regexCache (snd ?second) = regexCache (snd ?first)"
    and src: "re_source (heap (snd ?second) 0) = re_source (heap (snd ?first) 0)"
    by blast+
  have obj: "re_source (heap (snd ?first) 0) = ''a|||b''" "re_flags (heap (snd ?first) 0) = []"
    using compiled eng by simp_all
  have got': "Map_get (regexCache (snd ?first)) ''a|||b|||'' = Some 0"
    using got by (simp add: cache_key_strings)
  have src': "re_source (heap (snd ?second) 0) = ''a|||b''"
    using src obj by simp
  have kept': "regexCache (snd ?second) = [(''a|||b|||'', 0)]"
    using kept cache1 by simp
  show ?thesis
    using en same absent res got' obj example_engine_rejects hit src' kept' by blast
qed

section \<open>Proofs: settings\<close>

lemma backfill_apply:
  "backfill ds obj k = (case obj k of Some v \<Rightarrow> Some v | None \<Rightarrow> map_of ds k)"
  by (induction ds arbitrary: obj) (auto split: option.splits)

lemma merge_settings_apply:
  "merge_settings ds stored k =
     (case stored of
        None \<Rightarrow> map_of ds k
      | Some obj \<Rightarrow> (case obj k of Some v \<Rightarrow> Some v | None \<Rightarrow> map_of ds k))"
  by (simp add: merge_settings_def backfill_apply split: option.splits)

lemma merge_settings_idem:
  "merge_settings ds (Some (merge_settings ds stored)) = merge_settings ds stored"
  by (rule ext) (simp add: merge_settings_apply split: option.splits)

lemma getSettings_eq:
  "getSettings s =
     (merge_settings (defaultSettings (isMobile s)) (module_settings s),
      s\<lparr>module_settings := Some (merge_settings (defaultSettings (isMobile s)) (module_settings s))\<rparr>)"
  by (simp add: getSettings_def Let_def)

lemma setting_on_eq:
  "setting_on s k = prop_truthy (merge_settings (defaultSettings (isMobile s)) (module_settings s)) k"
  by (simp add: setting_on_def getSettings_eq)

lemma example_settings:
  "setting_on example_loaded ''enabled''"
  "setting_on example_loaded ''deferRegexDuringStreaming''"
  "setting_on example_loaded ''preventScrollJump''"
  by (simp_all add: setting_on_eq merge_settings_apply prop_truthy_def defaultSettings_def
      example_loaded_def module_load_def example_host_def)






section \<open>Proofs: the streaming phase\<close>

lemma indexOf_append_absent: "x \<notin> set xs \<Longrightarrow> indexOf (xs @ [x]) x = Some (length xs)"
  by (induction xs) auto

lemma splice1_last: "splice1 (length xs) (xs @ [x]) = xs"
  by (simp add: splice1_def)

subsection \<open>Handlers on a state whose settings are already merged\<close>

lemma getSettings_at:
  "module_settings u = Some cfg \<Longrightarrow>
   merge_settings (defaultSettings (isMobile u)) (Some cfg) = cfg \<Longrightarrow>
   getSettings u = (cfg, u)"
  by (simp add: getSettings_eq)

lemma getSettings_merged:
  "module_settings (snd (getSettings s)) = Some (fst (getSettings s))"
  "merge_settings (defaultSettings (isMobile (snd (getSettings s)))) (Some (fst (getSettings s)))
     = fst (getSettings s)"
  by (simp_all add: getSettings_eq merge_settings_idem)

lemma getSettings_twice: "getSettings (snd (getSettings s)) = (fst (getSettings s), snd (getSettings s))"
  by (rule getSettings_at) (rule getSettings_merged)+

lemma getSettings_frame:
  "disabledExtensions (snd (getSettings s)) = disabledExtensions s"
  "isGenerating (snd (getSettings s)) = isGenerating s"
  "regexDisabled (snd (getSettings s)) = regexDisabled s"
  "regexWasAlreadyDisabled (snd (getSettings s)) = regexWasAlreadyDisabled s"
  "timeouts (snd (getSettings s)) = timeouts s"
  "stats (snd (getSettings s)) = stats s"
  "body_perf_streaming (snd (getSettings s)) = body_perf_streaming s"
  by (simp_all add: getSettings_eq)

lemma onGenerationStarted_pre:
  "onGenerationStarted type s = onGenerationStarted type (snd (getSettings s))"
  by (simp add: onGenerationStarted_def getSettings_twice split: prod.splits)

lemma onGenerationStarted_at:
  assumes "module_settings u = Some cfg"
    and "merge_settings (defaultSettings (isMobile u)) (Some cfg) = cfg"
  shows "onGenerationStarted type u =
      (if prop_truthy cfg ''enabled'' \<and> type \<noteq> ''quiet'' then u\<lparr>isGenerating := True\<rparr> else u)"
  by (simp add: onGenerationStarted_def getSettings_at [OF assms])

lemma disableRegexForStreaming_at:
  assumes "module_settings u = Some cfg"
    and "merge_settings (defaultSettings (isMobile u)) (Some cfg) = cfg"
  shows "disableRegexForStreaming u =
      (if \<not> prop_truthy cfg ''deferRegexDuringStreaming'' then u
       else case disabledExtensions u of
              None \<Rightarrow> u\<lparr>regexWasAlreadyDisabled := False\<rparr>
            | Some exts \<Rightarrow>
                if ''regex'' \<in> set exts then u\<lparr>regexWasAlreadyDisabled := True\<rparr>
                else u\<lparr>regexWasAlreadyDisabled := False,
                       disabledExtensions := Some (exts @ [''regex'']),
                       stats := (stats u)\<lparr>regexSkipped := Suc (regexSkipped (stats u))\<rparr>\<rparr>)"
  by (simp add: disableRegexForStreaming_def getSettings_at [OF assms] Let_def split: option.splits)

lemma restoreRegexAfterStreaming_at:
  assumes "module_settings u = Some cfg"
    and "merge_settings (defaultSettings (isMobile u)) (Some cfg) = cfg"
  shows "restoreRegexAfterStreaming u =
      (if \<not> prop_truthy cfg ''deferRegexDuringStreaming'' then u
       else case disabledExtensions u of
              None \<Rightarrow> u
            | Some exts \<Rightarrow>
                if regexWasAlreadyDisabled u then u
                else (case indexOf exts ''regex'' of
                        None \<Rightarrow> u
                      | Some idx \<Rightarrow> u\<lparr>disabledExtensions := Some (splice1 idx exts)\<rparr>))"
  by (simp add: restoreRegexAfterStreaming_def getSettings_at [OF assms] split: option.splits)

lemma onStreamTokenReceived_at:
  assumes "module_settings u = Some cfg"
    and "merge_settings (defaultSettings (isMobile u)) (Some cfg) = cfg"
  shows "onStreamTokenReceived u =
      (if \<not> prop_truthy cfg ''enabled'' \<or> \<not> isGenerating u \<or> regexDisabled u then u
       else if prop_truthy cfg ''reduceStreamingEffects''
       then (disableRegexForStreaming u)\<lparr>regexDisabled := True, body_perf_streaming := True\<rparr>
       else (disableRegexForStreaming u)\<lparr>regexDisabled := True\<rparr>)"
  by (simp add: onStreamTokenReceived_def getSettings_at [OF assms] Let_def
      enableStreamingCSSMode_def)

lemma onStreamTokenReceived_pre:
  "onStreamTokenReceived s = onStreamTokenReceived (snd (getSettings s))"
  by (simp add: onStreamTokenReceived_def getSettings_twice split: prod.splits)

subsection \<open>Starts the controller does not accept\<close>

text \<open>
  A \<open>quiet\<close> start is ignored; while no generation is tracked, tokens and \<open>ended\<close> do
  nothing beyond the merge of the settings.
\<close>

lemma ignored_session:
  assumes "\<not> isGenerating s"
  shows "onGenerationStarted ''quiet'' s = snd (getSettings s)"
    and "onStreamTokenReceived (snd (getSettings s)) = snd (getSettings s)"
    and "onGenerationEnded (snd (getSettings s)) = snd (getSettings s)"
proof -
  let ?t = "snd (getSettings s)"
  have m: "module_settings ?t = Some (fst (getSettings s))"
    "merge_settings (defaultSettings (isMobile ?t)) (Some (fst (getSettings s))) = fst (getSettings s)"
    by (rule getSettings_merged)+
  have idle: "\<not> isGenerating ?t"
    using assms by (simp add: getSettings_frame)
  show "onGenerationStarted ''quiet'' s = ?t"
    by (simp add: onGenerationStarted_pre [of _ s] onGenerationStarted_at [OF m])
  show "onStreamTokenReceived ?t = ?t"
    using idle by (simp add: onStreamTokenReceived_at [OF m])
  show "onGenerationEnded ?t = ?t"
    using idle by (simp add: onGenerationEnded_def)
qed

text \<open>
  The invariant of the phase variables: a deferral is pending only while a generation is
  tracked. It holds at module load and every handler keeps it, so a state in which no
  generation is tracked has no deferral pending.
\<close>

lemma phase_invariant_load:
  "regexDisabled (module_load host) \<longrightarrow> isGenerating (module_load host)"
  by (simp add: module_load_def)

lemma phase_invariant_started:
  assumes "regexDisabled s \<longrightarrow> isGenerating s"
  shows "regexDisabled (onGenerationStarted type s) \<longrightarrow> isGenerating (onGenerationStarted type s)"
  using assms by (auto simp: onGenerationStarted_def getSettings_eq)

lemma phase_invariant_token:
  assumes "regexDisabled s \<longrightarrow> isGenerating s"
  shows "regexDisabled (onStreamTokenReceived s) \<longrightarrow> isGenerating (onStreamTokenReceived s)"
proof -
  let ?t = "snd (getSettings s)"
  have m: "module_settings ?t = Some (fst (getSettings s))"
    "merge_settings (defaultSettings (isMobile ?t)) (Some (fst (getSettings s))) = fst (getSettings s)"
    by (rule getSettings_merged)+
  have d: "isGenerating (disableRegexForStreaming ?t) = isGenerating s"
    by (simp add: disableRegexForStreaming_at [OF m] getSettings_frame split: option.splits)
  have t: "regexDisabled ?t \<longrightarrow> isGenerating ?t"
    using assms by (simp add: getSettings_frame)
  have "regexDisabled (onStreamTokenReceived ?t) \<longrightarrow> isGenerating (onStreamTokenReceived ?t)"
    using t d by (auto simp: onStreamTokenReceived_at [OF m] getSettings_frame)
  then show ?thesis
    by (simp add: onStreamTokenReceived_pre [of s])
qed

lemma phase_invariant_ended:
  assumes "regexDisabled s \<longrightarrow> isGenerating s"
  shows "regexDisabled (onGenerationEnded s) \<longrightarrow> isGenerating (onGenerationEnded s)"
proof -
  have r: "regexDisabled (restoreRegexAfterStreaming u) = regexDisabled u" for u
    by (simp add: restoreRegexAfterStreaming_def getSettings_eq split: option.splits)
  show ?thesis
    using assms by (simp add: onGenerationEnded_def Let_def disableStreamingCSSMode_def r)
qed

lemma ended_clears_phase:
  assumes "regexDisabled s \<longrightarrow> isGenerating s"
  shows "\<not> isGenerating (onGenerationEnded s) \<and> \<not> regexDisabled (onGenerationEnded s)"
proof -
  have r: "regexDisabled (restoreRegexAfterStreaming u) = regexDisabled u
      \<and> isGenerating (restoreRegexAfterStreaming u) = isGenerating u" for u
    by (simp add: restoreRegexAfterStreaming_def getSettings_eq split: option.splits)
  show ?thesis
    using assms by (auto simp: onGenerationEnded_def Let_def disableStreamingCSSMode_def r)
qed

lemma onGenerationStopped_eq: "onGenerationStopped s = onGenerationEnded s"
  by (simp add: onGenerationStopped_def onGenerationEnded_def)

subsection \<open>Properties of the streaming phase\<close>

text \<open>
  C3. In a session \<open>started, token, token, token, ended\<close> with the extension and the
  deferral enabled, a generation type other than \<open>quiet\<close>, a list of disabled extensions
  that does not contain \<open>regex\<close>, and no deferral pending from before: \<open>started\<close> leaves the
  list alone; the first token appends \<open>regex\<close> and counts one deferred generation; the
  second and third token change nothing at all; \<open>ended\<close> removes \<open>regex\<close> again, giving back
  the original list, and queues exactly one re-render of the last message.
\<close>

theorem streaming_session_defers_once:
  assumes "setting_on s ''enabled''" "setting_on s ''deferRegexDuringStreaming''"
    and "type \<noteq> ''quiet''"
    and "disabledExtensions s = Some exts" "''regex'' \<notin> set exts"
    and "\<not> regexDisabled s"
  shows "let s1 = onGenerationStarted type s;
             s2 = onStreamTokenReceived s1;
             s3 = onStreamTokenReceived s2;
             s4 = onStreamTokenReceived s3;
             s5 = onGenerationEnded s4
         in disabledExtensions s1 = Some exts \<and> timeouts s1 = timeouts s
          \<and> disabledExtensions s2 = Some (exts @ [''regex'']) \<and> timeouts s2 = timeouts s
          \<and> regexSkipped (stats s2) = Suc (regexSkipped (stats s))
          \<and> s3 = s2 \<and> s4 = s2
          \<and> disabledExtensions s5 = Some exts
          \<and> timeouts s5 = timeouts s @ [RerenderLastMessage]
          \<and> regexSkipped (stats s5) = Suc (regexSkipped (stats s))
          \<and> \<not> isGenerating s5 \<and> \<not> regexDisabled s5"
proof -
  define cfg where "cfg = fst (getSettings s)"
  define t where "t = snd (getSettings s)"
  have m: "module_settings t = Some cfg"
    "merge_settings (defaultSettings (isMobile t)) (Some cfg) = cfg"
    unfolding t_def cfg_def by (rule getSettings_merged)+
  have on: "prop_truthy cfg ''enabled''" "prop_truthy cfg ''deferRegexDuringStreaming''"
    using assms(1,2) by (simp_all add: setting_on_def cfg_def)
  have t: "disabledExtensions t = Some exts" "\<not> regexDisabled t"
    "timeouts t = timeouts s" "stats t = stats s"
    using assms(4,6) by (simp_all add: t_def getSettings_frame)
  define s1 where "s1 = t\<lparr>isGenerating := True\<rparr>"
  have e1: "onGenerationStarted type s = s1"
    using on assms(3)
    by (simp add: onGenerationStarted_pre [of type s] t_def [symmetric]
        onGenerationStarted_at [OF m] s1_def)
  have m1: "module_settings s1 = Some cfg"
    "merge_settings (defaultSettings (isMobile s1)) (Some cfg) = cfg"
    using m by (simp_all add: s1_def)
  have f1: "disabledExtensions s1 = Some exts" "isGenerating s1" "\<not> regexDisabled s1"
    using t by (simp_all add: s1_def)
  define d where "d = s1\<lparr>regexWasAlreadyDisabled := False,
      disabledExtensions := Some (exts @ [''regex'']),
      stats := (stats s1)\<lparr>regexSkipped := Suc (regexSkipped (stats s1))\<rparr>\<rparr>"
  have ed: "disableRegexForStreaming s1 = d"
    using on f1 assms(5) by (simp add: disableRegexForStreaming_at [OF m1] d_def)
  define s2 where "s2 = onStreamTokenReceived s1"
  have e2: "s2 = (if prop_truthy cfg ''reduceStreamingEffects''
      then d\<lparr>regexDisabled := True, body_perf_streaming := True\<rparr>
      else d\<lparr>regexDisabled := True\<rparr>)"
    using on f1 by (simp add: s2_def onStreamTokenReceived_at [OF m1] ed)
  have m2: "module_settings s2 = Some cfg"
    "merge_settings (defaultSettings (isMobile s2)) (Some cfg) = cfg"
    using m1 by (simp_all add: e2 d_def)
  have f2: "regexDisabled s2" "isGenerating s2" "\<not> regexWasAlreadyDisabled s2"
    "disabledExtensions s2 = Some (exts @ [''regex''])"
    "timeouts s2 = timeouts s"
    "regexSkipped (stats s2) = Suc (regexSkipped (stats s))"
    using t by (simp_all add: e2 d_def s1_def)
  have e3: "onStreamTokenReceived s2 = s2"
    using f2 by (simp add: onStreamTokenReceived_at [OF m2])
  define r where "r = s2\<lparr>isGenerating := False, regexDisabled := False\<rparr>"
  have mr: "module_settings r = Some cfg"
    "merge_settings (defaultSettings (isMobile r)) (Some cfg) = cfg"
    using m2 by (simp_all add: r_def)
  have fr: "\<not> regexWasAlreadyDisabled r" "disabledExtensions r = Some (exts @ [''regex''])"
    using f2 by (simp_all add: r_def)
  have er: "restoreRegexAfterStreaming r = r\<lparr>disabledExtensions := Some exts\<rparr>"
    using on fr assms(5)
    by (simp add: restoreRegexAfterStreaming_at [OF mr] indexOf_append_absent splice1_last)
  have e5: "onGenerationEnded s2 =
      r\<lparr>disabledExtensions := Some exts, body_perf_streaming := False,
        timeouts := timeouts s @ [RerenderLastMessage]\<rparr>"
    using f2
    by (simp add: onGenerationEnded_def Let_def r_def [symmetric] er disableStreamingCSSMode_def)
       (simp add: r_def)
  show ?thesis
    using t f2
    by (simp add: Let_def e1 s2_def [symmetric] e3 e5) (simp add: s1_def r_def)
qed

theorem streaming_session_defers_once_witness:
  "setting_on example_loaded ''enabled''
   \<and> setting_on example_loaded ''deferRegexDuringStreaming''
   \<and> ''normal'' \<noteq> ''quiet''
   \<and> disabledExtensions example_loaded = Some []
   \<and> \<not> regexDisabled example_loaded
   \<and> disabledExtensions (onStreamTokenReceived (onGenerationStarted ''normal'' example_loaded))
       = Some [''regex'']
   \<and> onStreamTokenReceived (onStreamTokenReceived (onGenerationStarted ''normal'' example_loaded))
       = onStreamTokenReceived (onGenerationStarted ''normal'' example_loaded)
   \<and> disabledExtensions (onGenerationEnded (onStreamTokenReceived (onStreamTokenReceived
        (onStreamTokenReceived (onGenerationStarted ''normal'' example_loaded))))) = Some []
   \<and> timeouts (onGenerationEnded (onStreamTokenReceived (onStreamTokenReceived
        (onStreamTokenReceived (onGenerationStarted ''normal'' example_loaded)))))
       = [RerenderLastMessage]"
proof -
  have f: "disabledExtensions example_loaded = Some []" "\<not> regexDisabled example_loaded"
    "timeouts example_loaded = []"
    by (simp_all add: example_loaded_def module_load_def example_host_def)
  have ne: "''normal'' \<noteq> ''quiet''" and ni: "''regex'' \<notin> set []"
    by simp_all
  let ?started = "onGenerationStarted ''normal'' example_loaded"
  let ?token = "onStreamTokenReceived ?started"
  let ?ended = "onGenerationEnded (onStreamTokenReceived (onStreamTokenReceived ?token))"
  have main: "disabledExtensions ?token = Some ([] @ [''regex''])
      \<and> onStreamTokenReceived ?token = ?token
      \<and> disabledExtensions ?ended = Some []
      \<and> timeouts ?ended = timeouts example_loaded @ [RerenderLastMessage]"
    using streaming_session_defers_once [OF example_settings(1,2) ne f(1) ni f(2)]
    unfolding Let_def by blast
  from main have a0: "disabledExtensions ?token = Some ([] @ [''regex''])"
    and d0: "timeouts ?ended = timeouts example_loaded @ [RerenderLastMessage]"
    by blast+
  have a: "disabledExtensions ?token = Some [''regex'']"
    unfolding a0 by simp
  have d: "timeouts ?ended = [RerenderLastMessage]"
    unfolding d0 f(3) by simp
  show ?thesis
    using a d main example_settings(1,2) ne f(1,2) by blast
qed

text \<open>
  The sequence of C3 with a \<open>quiet\<close> start, in the example host (deferral on, empty list):
  \<open>regex\<close> is never appended, nothing is counted and no re-render is queued.
\<close>

theorem quiet_session_never_defers:
  "setting_on example_loaded ''deferRegexDuringStreaming''
   \<and> disabledExtensions example_loaded = Some []
   \<and> disabledExtensions (onStreamTokenReceived (onGenerationStarted ''quiet'' example_loaded))
       = Some []
   \<and> disabledExtensions (onGenerationEnded (onStreamTokenReceived (onStreamTokenReceived
        (onStreamTokenReceived (onGenerationStarted ''quiet'' example_loaded))))) = Some []
   \<and> regexSkipped (stats (onGenerationEnded (onStreamTokenReceived (onStreamTokenReceived
        (onStreamTokenReceived (onGenerationStarted ''quiet'' example_loaded)))))) = 0
   \<and> timeouts (onGenerationEnded (onStreamTokenReceived (onStreamTokenReceived
        (onStreamTokenReceived (onGenerationStarted ''quiet'' example_loaded))))) = []"
proof -
  have idle: "\<not> isGenerating example_loaded"
    by (simp add: example_loaded_def module_load_def)
  have f: "disabledExtensions example_loaded = Some []" "timeouts example_loaded = []"
    "regexSkipped (stats example_loaded) = 0"
    by (simp_all add: example_loaded_def module_load_def example_host_def)
  note i = ignored_session [OF idle]
  show ?thesis
    using example_settings(2) f by (simp add: i getSettings_frame)
qed

text \<open>
  C4. The list of disabled extensions already contains \<open>regex\<close> when a session starts
  (extension enabled, type other than \<open>quiet\<close>, no deferral pending). Then the first token
  adds nothing and counts nothing; with the deferral setting on it records that regex was
  already disabled. On \<open>ended\<close> the restore routine changes nothing at all, the list is
  what it was, \<open>regex\<close> included, and one re-render of the last message is queued.
\<close>

theorem already_disabled_not_restored:
  assumes "setting_on s ''enabled''"
    and "type \<noteq> ''quiet''"
    and "disabledExtensions s = Some exts" "''regex'' \<in> set exts"
    and "\<not> regexDisabled s"
  shows "let s1 = onGenerationStarted type s;
             s2 = onStreamTokenReceived s1;
             r = s2\<lparr>isGenerating := False, regexDisabled := False\<rparr>;
             s3 = onGenerationEnded s2
         in disabledExtensions s2 = Some exts
          \<and> regexSkipped (stats s2) = regexSkipped (stats s)
          \<and> (setting_on s ''deferRegexDuringStreaming'' \<longrightarrow> regexWasAlreadyDisabled s2)
          \<and> restoreRegexAfterStreaming r = r
          \<and> disabledExtensions s3 = Some exts
          \<and> timeouts s3 = timeouts s @ [RerenderLastMessage]
          \<and> \<not> isGenerating s3 \<and> \<not> regexDisabled s3"
proof -
  define cfg where "cfg = fst (getSettings s)"
  define t where "t = snd (getSettings s)"
  have m: "module_settings t = Some cfg"
    "merge_settings (defaultSettings (isMobile t)) (Some cfg) = cfg"
    unfolding t_def cfg_def by (rule getSettings_merged)+
  have on: "prop_truthy cfg ''enabled''"
    using assms(1) by (simp add: setting_on_def cfg_def)
  have dfr: "setting_on s ''deferRegexDuringStreaming'' = prop_truthy cfg ''deferRegexDuringStreaming''"
    by (simp add: setting_on_def cfg_def)
  have t: "disabledExtensions t = Some exts" "\<not> regexDisabled t"
    "timeouts t = timeouts s" "stats t = stats s"
    using assms(3,5) by (simp_all add: t_def getSettings_frame)
  define s1 where "s1 = t\<lparr>isGenerating := True\<rparr>"
  have e1: "onGenerationStarted type s = s1"
    using on assms(2)
    by (simp add: onGenerationStarted_pre [of type s] t_def [symmetric]
        onGenerationStarted_at [OF m] s1_def)
  have m1: "module_settings s1 = Some cfg"
    "merge_settings (defaultSettings (isMobile s1)) (Some cfg) = cfg"
    using m by (simp_all add: s1_def)
  have f1: "disabledExtensions s1 = Some exts" "isGenerating s1" "\<not> regexDisabled s1"
    "timeouts s1 = timeouts s" "stats s1 = stats s"
    using t by (simp_all add: s1_def)
  define d where "d = disableRegexForStreaming s1"
  have ed: "d = (if prop_truthy cfg ''deferRegexDuringStreaming''
      then s1\<lparr>regexWasAlreadyDisabled := True\<rparr> else s1)"
    using f1 assms(4) by (simp add: d_def disableRegexForStreaming_at [OF m1])
  have md: "module_settings d = Some cfg"
    "merge_settings (defaultSettings (isMobile d)) (Some cfg) = cfg"
    using m1 by (simp_all add: ed)
  have fd: "disabledExtensions d = Some exts" "timeouts d = timeouts s" "stats d = stats s"
    "prop_truthy cfg ''deferRegexDuringStreaming'' \<longrightarrow> regexWasAlreadyDisabled d"
    using f1 by (simp_all add: ed)
  define s2 where "s2 = onStreamTokenReceived s1"
  have e2: "s2 = (if prop_truthy cfg ''reduceStreamingEffects''
      then d\<lparr>regexDisabled := True, body_perf_streaming := True\<rparr>
      else d\<lparr>regexDisabled := True\<rparr>)"
    using on f1 by (simp add: s2_def onStreamTokenReceived_at [OF m1] d_def)
  have m2: "module_settings s2 = Some cfg"
    "merge_settings (defaultSettings (isMobile s2)) (Some cfg) = cfg"
    using md by (simp_all add: e2)
  have f2: "regexDisabled s2" "isGenerating s2"
    "disabledExtensions s2 = Some exts" "timeouts s2 = timeouts s" "stats s2 = stats s"
    "prop_truthy cfg ''deferRegexDuringStreaming'' \<longrightarrow> regexWasAlreadyDisabled s2"
    using fd f1 by (simp_all add: e2 ed)
  define r where "r = s2\<lparr>isGenerating := False, regexDisabled := False\<rparr>"
  have mr: "module_settings r = Some cfg"
    "merge_settings (defaultSettings (isMobile r)) (Some cfg) = cfg"
    using m2 by (simp_all add: r_def)
  have fr: "disabledExtensions r = Some exts" "timeouts r = timeouts s"
    "prop_truthy cfg ''deferRegexDuringStreaming'' \<longrightarrow> regexWasAlreadyDisabled r"
    using f2 by (simp_all add: r_def)
  have er: "restoreRegexAfterStreaming r = r"
    using fr by (simp add: restoreRegexAfterStreaming_at [OF mr])
  have e5: "onGenerationEnded s2 =
      r\<lparr>body_perf_streaming := False, timeouts := timeouts s @ [RerenderLastMessage]\<rparr>"
    using f2 fr
    by (simp add: onGenerationEnded_def Let_def r_def [symmetric] er disableStreamingCSSMode_def)
  have fin: "disabledExtensions (onGenerationEnded s2) = Some exts"
    "timeouts (onGenerationEnded s2) = timeouts s @ [RerenderLastMessage]"
    "\<not> isGenerating (onGenerationEnded s2)" "\<not> regexDisabled (onGenerationEnded s2)"
    using fr by (simp_all add: e5) (simp_all add: r_def)
  show ?thesis
    using f2 fin er
    by (simp add: Let_def e1 s2_def [symmetric] r_def [symmetric] dfr)
qed

theorem already_disabled_not_restored_witness:
  "setting_on (example_loaded\<lparr>disabledExtensions := Some [''regex'']\<rparr>) ''enabled''
   \<and> setting_on (example_loaded\<lparr>disabledExtensions := Some [''regex'']\<rparr>) ''deferRegexDuringStreaming''
   \<and> ''normal'' \<noteq> ''quiet''
   \<and> ''regex'' \<in> set [''regex'']
   \<and> \<not> regexDisabled (example_loaded\<lparr>disabledExtensions := Some [''regex'']\<rparr>)
   \<and> regexWasAlreadyDisabled (onStreamTokenReceived (onGenerationStarted ''normal''
        (example_loaded\<lparr>disabledExtensions := Some [''regex'']\<rparr>)))
   \<and> disabledExtensions (onGenerationEnded (onStreamTokenReceived (onGenerationStarted ''normal''
        (example_loaded\<lparr>disabledExtensions := Some [''regex'']\<rparr>)))) = Some [''regex'']
   \<and> timeouts (onGenerationEnded (onStreamTokenReceived (onGenerationStarted ''normal''
        (example_loaded\<lparr>disabledExtensions := Some [''regex'']\<rparr>)))) = [RerenderLastMessage]"
proof -
  let ?s = "example_loaded\<lparr>disabledExtensions := Some [''regex'']\<rparr>"
  have on: "setting_on ?s ''enabled''" "setting_on ?s ''deferRegexDuringStreaming''"
    using example_settings(1,2) by (simp_all add: setting_on_eq)
  have ne: "''normal'' \<noteq> ''quiet''" and mem: "''regex'' \<in> set [''regex'']"
    by simp_all
  have f: "disabledExtensions ?s = Some [''regex'']" "\<not> regexDisabled ?s" "timeouts ?s = []"
    by (simp_all add: example_loaded_def module_load_def example_host_def)
  let ?token = "onStreamTokenReceived (onGenerationStarted ''normal'' ?s)"
  from already_disabled_not_restored [OF on(1) ne f(1) mem f(2), unfolded Let_def] on(2)
  have a: "regexWasAlreadyDisabled ?token"
    and b: "disabledExtensions (onGenerationEnded ?token) = Some [''regex'']"
    and c0: "timeouts (onGenerationEnded ?token) = timeouts ?s @ [RerenderLastMessage]"
    by blast+
  have c: "timeouts (onGenerationEnded ?token) = [RerenderLastMessage]"
    unfolding c0 f(3) by simp
  show ?thesis
    using on ne mem f(2) a b c by blast
qed

text \<open>
  The session of C4 with a \<open>quiet\<close> start, \<open>regex\<close> being in the list beforehand: the list is
  untouched and no re-render is queued.
\<close>

theorem quiet_session_no_rerender:
  "disabledExtensions (example_loaded\<lparr>disabledExtensions := Some [''regex'']\<rparr>) = Some [''regex'']
   \<and> disabledExtensions (onGenerationEnded (onStreamTokenReceived (onGenerationStarted ''quiet''
        (example_loaded\<lparr>disabledExtensions := Some [''regex'']\<rparr>)))) = Some [''regex'']
   \<and> timeouts (onGenerationEnded (onStreamTokenReceived (onGenerationStarted ''quiet''
        (example_loaded\<lparr>disabledExtensions := Some [''regex'']\<rparr>)))) = []"
proof -
  let ?s = "example_loaded\<lparr>disabledExtensions := Some [''regex'']\<rparr>"
  have idle: "\<not> isGenerating ?s"
    by (simp add: example_loaded_def module_load_def)
  have f: "timeouts ?s = []"
    by (simp add: example_loaded_def module_load_def example_host_def)
  note i = ignored_session [OF idle]
  show ?thesis
    using f by (simp add: i getSettings_frame)
qed

text \<open>
  C5. \<open>started\<close> directly followed by \<open>ended\<close>, with no deferral pending from before: the
  list of disabled extensions is never touched, nothing is counted as deferred, no
  re-render is queued, and all \<open>ended\<close> does to the state is to clear \<open>isGenerating\<close>.
\<close>

theorem no_token_no_deferral:
  assumes "\<not> regexDisabled s"
  shows "let s1 = onGenerationStarted type s;
             s2 = onGenerationEnded s1
         in disabledExtensions s1 = disabledExtensions s
          \<and> disabledExtensions s2 = disabledExtensions s
          \<and> timeouts s1 = timeouts s \<and> timeouts s2 = timeouts s
          \<and> stats s2 = stats s
          \<and> s2 = s1\<lparr>isGenerating := False\<rparr>"
proof -
  define t where "t = snd (getSettings s)"
  have t: "disabledExtensions t = disabledExtensions s" "\<not> regexDisabled t"
    "timeouts t = timeouts s" "stats t = stats s"
    using assms by (simp_all add: t_def getSettings_frame)
  have s1: "onGenerationStarted type s = t \<or> onGenerationStarted type s = t\<lparr>isGenerating := True\<rparr>"
    by (simp add: onGenerationStarted_def t_def split: prod.splits)
  have ended: "onGenerationEnded u = u\<lparr>isGenerating := False\<rparr>" if "\<not> regexDisabled u" for u
    using that by (simp add: onGenerationEnded_def Let_def)
  from s1 show ?thesis
    using t by (auto simp: Let_def ended)
qed

theorem no_token_no_deferral_witness:
  "\<not> regexDisabled example_loaded
   \<and> isGenerating (onGenerationStarted ''normal'' example_loaded)
   \<and> disabledExtensions (onGenerationEnded (onGenerationStarted ''normal'' example_loaded)) = Some []
   \<and> timeouts (onGenerationEnded (onGenerationStarted ''normal'' example_loaded)) = []
   \<and> onGenerationEnded (onGenerationStarted ''normal'' example_loaded)
       = (onGenerationStarted ''normal'' example_loaded)\<lparr>isGenerating := False\<rparr>"
proof -
  have f: "\<not> regexDisabled example_loaded" "disabledExtensions example_loaded = Some []"
    "timeouts example_loaded = []"
    by (simp_all add: example_loaded_def module_load_def example_host_def)
  have g: "isGenerating (onGenerationStarted ''normal'' example_loaded)"
    using example_settings(1)
    by (simp add: onGenerationStarted_def setting_on_eq getSettings_eq)
  from no_token_no_deferral [OF f(1), of "''normal''", unfolded Let_def]
  have a: "disabledExtensions (onGenerationEnded (onGenerationStarted ''normal'' example_loaded))
        = disabledExtensions example_loaded"
    and b: "timeouts (onGenerationEnded (onGenerationStarted ''normal'' example_loaded))
        = timeouts example_loaded"
    and c: "onGenerationEnded (onGenerationStarted ''normal'' example_loaded)
       = (onGenerationStarted ''normal'' example_loaded)\<lparr>isGenerating := False\<rparr>"
    by blast+
  show ?thesis
    using f(1) g a [unfolded f(2)] b [unfolded f(3)] c by blast
qed

section \<open>Proofs: scroll preservation\<close>

lemma onVisibilityChange_hide:
  assumes "setting_on s ''enabled''" "setting_on s ''preventScrollJump''"
    and "chat_element s = Some e" "document_hidden s"
  shows "onVisibilityChange s =
      (snd (getSettings s))\<lparr>savedScrollInfo := Some
         \<lparr>scrollTop = scrollTop (elements s e),
          scrollHeight = scrollHeight (elements s e),
          clientHeight = clientHeight (elements s e),
          distanceFromBottom =
            scrollHeight (elements s e) - scrollTop (elements s e) - clientHeight (elements s e)\<rparr>\<rparr>"
  using assms
  by (simp add: onVisibilityChange_def setting_on_eq getSettings_eq Let_def)

lemma onVisibilityChange_show:
  assumes "setting_on s ''enabled''" "setting_on s ''preventScrollJump''"
    and "chat_element s = Some e" "\<not> document_hidden s"
  shows "onVisibilityChange s =
      (case savedScrollInfo s of
         None \<Rightarrow> snd (getSettings s)
       | Some info \<Rightarrow>
           (snd (getSettings s))\<lparr>savedScrollInfo := None,
              frame_callbacks := frame_callbacks s @ [RestoreOuter e info]\<rparr>)"
  using assms
  by (simp add: onVisibilityChange_def setting_on_eq getSettings_eq Let_def split: option.splits)

lemma setting_on_getSettings: "setting_on (snd (getSettings s)) k = setting_on s k"
  by (simp add: setting_on_eq getSettings_eq merge_settings_idem)

lemma run_frame_cb_geometry:
  "scrollHeight (elements (run_frame_cb u cb) e) = scrollHeight (elements u e)
   \<and> clientHeight (elements (run_frame_cb u cb) e) = clientHeight (elements u e)"
  by (cases cb) (simp_all add: Let_def)

lemma run_frame_cbs_geometry:
  "scrollHeight (elements (foldl run_frame_cb u cbs) e) = scrollHeight (elements u e)
   \<and> clientHeight (elements (foldl run_frame_cb u cbs) e) = clientHeight (elements u e)"
  by (induction cbs arbitrary: u) (simp_all add: run_frame_cb_geometry)

text \<open>A frame whose last queued callback is the outer closure queues the inner one last.\<close>

lemma frame_requeues:
  assumes "frame_callbacks u = q @ [RestoreOuter e info]"
  shows "\<exists>q'. frame_callbacks (run_animation_frame u) = q' @ [RestoreInner e info]"
  using assms by (simp add: run_animation_frame_def)

text \<open>A frame whose last queued callback is the inner closure ends with its assignment.\<close>

lemma frame_restores:
  assumes "frame_callbacks u = q @ [RestoreInner e info]"
  shows "scrollTop (elements (run_animation_frame u) e) =
      max 0 (scrollHeight (elements u e) - clientHeight (elements u e) - distanceFromBottom info)"
proof -
  let ?v = "foldl run_frame_cb (u\<lparr>frame_callbacks := []\<rparr>) q"
  have "scrollHeight (elements ?v e) = scrollHeight (elements u e)
      \<and> clientHeight (elements ?v e) = clientHeight (elements u e)"
    using run_frame_cbs_geometry [of "u\<lparr>frame_callbacks := []\<rparr>" q e] by simp
  then show ?thesis
    using assms by (simp add: run_animation_frame_def Let_def)
qed

lemma host_layout_fields:
  "frame_callbacks (host_layout e sh ch u) = frame_callbacks u"
  "scrollHeight (elements (host_layout e sh ch u) e) = sh"
  "clientHeight (elements (host_layout e sh ch u) e) = ch"
  by (simp_all add: host_layout_def)

lemma show_then_two_frames:
  assumes "setting_on s ''enabled''" "setting_on s ''preventScrollJump''"
    and "chat_element s = Some e" "\<not> document_hidden s" "savedScrollInfo s = Some info"
  shows "scrollTop (elements (run_animation_frame (host_layout e sh ch
            (run_animation_frame (onVisibilityChange s)))) e)
       = max 0 (sh - ch - distanceFromBottom info)"
proof -
  have "frame_callbacks (onVisibilityChange s) = frame_callbacks s @ [RestoreOuter e info]"
    using assms by (simp add: onVisibilityChange_show)
  from frame_requeues [OF this]
  obtain q' where "frame_callbacks (run_animation_frame (onVisibilityChange s))
      = q' @ [RestoreInner e info]" ..
  then have "frame_callbacks (host_layout e sh ch (run_animation_frame (onVisibilityChange s)))
      = q' @ [RestoreInner e info]"
    by (simp add: host_layout_fields)
  from frame_restores [OF this] show ?thesis
    by (simp add: host_layout_fields)
qed

lemma show_twice:
  assumes "setting_on s ''enabled''" "setting_on s ''preventScrollJump''"
    and "chat_element s = Some e" "\<not> document_hidden s" "savedScrollInfo s = Some info"
  shows "savedScrollInfo (onVisibilityChange s) = None
       \<and> onVisibilityChange (onVisibilityChange s) = onVisibilityChange s"
proof -
  let ?t = "onVisibilityChange s"
  have eq: "?t = (snd (getSettings s))\<lparr>savedScrollInfo := None,
              frame_callbacks := frame_callbacks s @ [RestoreOuter e info]\<rparr>"
    using assms by (simp add: onVisibilityChange_show)
  have on: "setting_on ?t ''enabled''" "setting_on ?t ''preventScrollJump''"
    using assms(1,2) by (simp_all add: eq setting_on_eq getSettings_eq merge_settings_idem)
  have f: "chat_element ?t = Some e" "\<not> document_hidden ?t" "savedScrollInfo ?t = None"
    using assms(3,4) by (simp_all add: eq getSettings_eq)
  have "snd (getSettings ?t) = ?t"
    by (simp add: eq getSettings_eq merge_settings_idem)
  then show ?thesis
    using onVisibilityChange_show [OF on f(1,2)] f(3) by simp
qed

subsection \<open>The worked example\<close>

lemma example_hide_input:
  "setting_on ((host_scroll 0 700 (host_layout 0 1000 300 example_loaded))\<lparr>document_hidden := True\<rparr>)
     ''enabled''"
  "setting_on ((host_scroll 0 700 (host_layout 0 1000 300 example_loaded))\<lparr>document_hidden := True\<rparr>)
     ''preventScrollJump''"
  "chat_element ((host_scroll 0 700 (host_layout 0 1000 300 example_loaded))\<lparr>document_hidden := True\<rparr>)
     = Some 0"
  "document_hidden ((host_scroll 0 700 (host_layout 0 1000 300 example_loaded))\<lparr>document_hidden := True\<rparr>)"
  "frame_callbacks ((host_scroll 0 700 (host_layout 0 1000 300 example_loaded))\<lparr>document_hidden := True\<rparr>)
     = []"
  "elements ((host_scroll 0 700 (host_layout 0 1000 300 example_loaded))\<lparr>document_hidden := True\<rparr>) 0
     = \<lparr>scrollTop = 700, scrollHeight = 1000, clientHeight = 300\<rparr>"
  using example_settings(1,3)
  by (simp_all add: setting_on_eq host_scroll_def host_layout_def example_loaded_def
      module_load_def example_host_def)

lemma example_hidden_eq:
  "setting_on example_hidden ''enabled''"
  "setting_on example_hidden ''preventScrollJump''"
  "chat_element example_hidden = Some 0"
  "savedScrollInfo example_hidden =
     Some \<lparr>scrollTop = 700, scrollHeight = 1000, clientHeight = 300, distanceFromBottom = 0\<rparr>"
  "frame_callbacks example_hidden = []"
proof -
  let ?u = "(host_scroll 0 700 (host_layout 0 1000 300 example_loaded))\<lparr>document_hidden := True\<rparr>"
  note i = example_hide_input
  have eq: "example_hidden = (snd (getSettings ?u))\<lparr>savedScrollInfo := Some
         \<lparr>scrollTop = 700, scrollHeight = 1000, clientHeight = 300, distanceFromBottom = 0\<rparr>\<rparr>"
    unfolding example_hidden_def host_visibility_def onVisibilityChange_hide [OF i(1,2,3,4)]
    using i(6) by simp
  show "setting_on example_hidden ''enabled''" "setting_on example_hidden ''preventScrollJump''"
    using i(1,2) by (simp_all add: eq setting_on_eq getSettings_eq merge_settings_idem)
  show "chat_element example_hidden = Some 0"
    using i(3) by (simp add: eq getSettings_eq)
  show "savedScrollInfo example_hidden =
     Some \<lparr>scrollTop = 700, scrollHeight = 1000, clientHeight = 300, distanceFromBottom = 0\<rparr>"
    by (simp add: eq)
  show "frame_callbacks example_hidden = []"
    using i(5) by (simp add: eq getSettings_eq)
qed

lemma example_show_input:
  "setting_on ((host_layout 0 1200 300 example_hidden)\<lparr>document_hidden := False\<rparr>) ''enabled''"
  "setting_on ((host_layout 0 1200 300 example_hidden)\<lparr>document_hidden := False\<rparr>)
     ''preventScrollJump''"
  "chat_element ((host_layout 0 1200 300 example_hidden)\<lparr>document_hidden := False\<rparr>) = Some 0"
  "\<not> document_hidden ((host_layout 0 1200 300 example_hidden)\<lparr>document_hidden := False\<rparr>)"
  "savedScrollInfo ((host_layout 0 1200 300 example_hidden)\<lparr>document_hidden := False\<rparr>) =
     Some \<lparr>scrollTop = 700, scrollHeight = 1000, clientHeight = 300, distanceFromBottom = 0\<rparr>"
  "frame_callbacks ((host_layout 0 1200 300 example_hidden)\<lparr>document_hidden := False\<rparr>) = []"
  using example_hidden_eq by (simp_all add: setting_on_eq host_layout_def)

lemma example_shown_restored:
  "scrollTop (elements (run_animation_frame (run_animation_frame example_shown)) 0) = 900"
proof -
  let ?u = "(host_layout 0 1200 300 example_hidden)\<lparr>document_hidden := False\<rparr>"
  let ?info = "\<lparr>scrollTop = 700, scrollHeight = 1000, clientHeight = 300, distanceFromBottom = 0\<rparr>
      :: scroll_info"
  note i = example_show_input
  have shown: "example_shown = onVisibilityChange ?u"
    by (simp add: example_shown_def host_visibility_def)
  have step: "onVisibilityChange ?u = (snd (getSettings ?u))\<lparr>savedScrollInfo := None,
      frame_callbacks := [RestoreOuter 0 ?info]\<rparr>"
    using i(5,6) by (simp add: onVisibilityChange_show [OF i(1,2,3,4)])
  have q1: "frame_callbacks example_shown = [] @ [RestoreOuter 0 ?info]"
    by (simp add: shown step)
  have g: "scrollHeight (elements example_shown 0) = 1200"
    "clientHeight (elements example_shown 0) = 300"
    by (simp_all add: shown step getSettings_eq host_layout_fields)
  from frame_requeues [OF q1]
  obtain q' where q2: "frame_callbacks (run_animation_frame example_shown)
      = q' @ [RestoreInner 0 ?info]" ..
  have g2: "scrollHeight (elements (run_animation_frame example_shown) 0) = 1200"
    "clientHeight (elements (run_animation_frame example_shown) 0) = 300"
    using g run_frame_cbs_geometry [of "example_shown\<lparr>frame_callbacks := []\<rparr>"
        "frame_callbacks example_shown" 0]
    by (simp_all add: run_animation_frame_def)
  from frame_restores [OF q2] show ?thesis
    by (simp add: g2)
qed

subsection \<open>The scroll anchor\<close>

text \<open>
  C9. With the extension and scroll preservation enabled and a chat element present: on
  hide the snapshot holds the element's geometry and the distance from the bottom,
  \<open>scrollHeight - scrollTop - clientHeight\<close>. On show with a snapshot the snapshot is
  cleared, so that a second show changes nothing, and after two frames (whatever else was
  queued, and whatever height \<open>sh\<close> and viewport \<open>ch\<close> the layout has by then) the element's
  \<open>scrollTop\<close> is \<open>sh - ch - distance\<close>, or zero when that is negative. In the worked
  example (hidden at height 1000, offset 700, viewport 300; shown at height 1200, viewport
  300) the stored distance is 0 and the restored offset is 900.
\<close>

theorem scroll_anchor_restored:
  assumes "setting_on s ''enabled''" "setting_on s ''preventScrollJump''"
    and "chat_element s = Some e"
  shows "(document_hidden s \<longrightarrow>
            savedScrollInfo (onVisibilityChange s) = Some
              \<lparr>scrollTop = scrollTop (elements s e),
               scrollHeight = scrollHeight (elements s e),
               clientHeight = clientHeight (elements s e),
               distanceFromBottom =
                 scrollHeight (elements s e) - scrollTop (elements s e) - clientHeight (elements s e)\<rparr>)
       \<and> (\<not> document_hidden s \<and> savedScrollInfo s = Some info \<longrightarrow>
            savedScrollInfo (onVisibilityChange s) = None
            \<and> onVisibilityChange (onVisibilityChange s) = onVisibilityChange s
            \<and> scrollTop (elements (run_animation_frame (host_layout e sh ch
                  (run_animation_frame (onVisibilityChange s)))) e)
                = max 0 (sh - ch - distanceFromBottom info))
       \<and> savedScrollInfo example_hidden =
            Some \<lparr>scrollTop = 700, scrollHeight = 1000, clientHeight = 300, distanceFromBottom = 0\<rparr>
       \<and> scrollTop (elements (run_animation_frame (run_animation_frame example_shown)) 0) = 900"
proof (intro conjI impI)
  show "savedScrollInfo (onVisibilityChange s) = Some
      \<lparr>scrollTop = scrollTop (elements s e),
       scrollHeight = scrollHeight (elements s e),
       clientHeight = clientHeight (elements s e),
       distanceFromBottom =
         scrollHeight (elements s e) - scrollTop (elements s e) - clientHeight (elements s e)\<rparr>"
    if "document_hidden s"
    by (simp add: onVisibilityChange_hide [OF assms that])
next
  assume a: "\<not> document_hidden s \<and> savedScrollInfo s = Some info"
  show "savedScrollInfo (onVisibilityChange s) = None"
    using show_twice [OF assms] a by blast
  show "onVisibilityChange (onVisibilityChange s) = onVisibilityChange s"
    using show_twice [OF assms] a by blast
  show "scrollTop (elements (run_animation_frame (host_layout e sh ch
          (run_animation_frame (onVisibilityChange s)))) e)
        = max 0 (sh - ch - distanceFromBottom info)"
    using show_then_two_frames [OF assms] a by blast
next
  show "savedScrollInfo example_hidden =
      Some \<lparr>scrollTop = 700, scrollHeight = 1000, clientHeight = 300, distanceFromBottom = 0\<rparr>"
    by (rule example_hidden_eq)
  show "scrollTop (elements (run_animation_frame (run_animation_frame example_shown)) 0) = 900"
    by (rule example_shown_restored)
qed

theorem scroll_anchor_restored_witness:
  "setting_on ((host_scroll 0 700 (host_layout 0 1000 300 example_loaded))\<lparr>document_hidden := True\<rparr>)
     ''enabled''
   \<and> setting_on ((host_scroll 0 700 (host_layout 0 1000 300 example_loaded))\<lparr>document_hidden := True\<rparr>)
     ''preventScrollJump''
   \<and> chat_element ((host_scroll 0 700 (host_layout 0 1000 300 example_loaded))\<lparr>document_hidden := True\<rparr>)
     = Some 0
   \<and> document_hidden ((host_scroll 0 700 (host_layout 0 1000 300 example_loaded))\<lparr>document_hidden := True\<rparr>)
   \<and> savedScrollInfo (onVisibilityChange
        ((host_scroll 0 700 (host_layout 0 1000 300 example_loaded))\<lparr>document_hidden := True\<rparr>))
     = Some \<lparr>scrollTop = 700, scrollHeight = 1000, clientHeight = 300, distanceFromBottom = 0\<rparr>
   \<and> setting_on ((host_layout 0 1200 300 example_hidden)\<lparr>document_hidden := False\<rparr>) ''enabled''
   \<and> setting_on ((host_layout 0 1200 300 example_hidden)\<lparr>document_hidden := False\<rparr>)
     ''preventScrollJump''
   \<and> chat_element ((host_layout 0 1200 300 example_hidden)\<lparr>document_hidden := False\<rparr>) = Some 0
   \<and> \<not> document_hidden ((host_layout 0 1200 300 example_hidden)\<lparr>document_hidden := False\<rparr>)
   \<and> savedScrollInfo ((host_layout 0 1200 300 example_hidden)\<lparr>document_hidden := False\<rparr>) =
       Some \<lparr>scrollTop = 700, scrollHeight = 1000, clientHeight = 300, distanceFromBottom = 0\<rparr>
   \<and> savedScrollInfo (onVisibilityChange
        ((host_layout 0 1200 300 example_hidden)\<lparr>document_hidden := False\<rparr>)) = None
   \<and> onVisibilityChange (onVisibilityChange
        ((host_layout 0 1200 300 example_hidden)\<lparr>document_hidden := False\<rparr>))
       = onVisibilityChange ((host_layout 0 1200 300 example_hidden)\<lparr>document_hidden := False\<rparr>)
   \<and> scrollTop (elements (run_animation_frame (host_layout 0 1200 300 (run_animation_frame
        (onVisibilityChange ((host_layout 0 1200 300 example_hidden)\<lparr>document_hidden := False\<rparr>))))) 0)
       = 900"
proof -
  let ?h = "(host_scroll 0 700 (host_layout 0 1000 300 example_loaded))\<lparr>document_hidden := True\<rparr>"
  let ?u = "(host_layout 0 1200 300 example_hidden)\<lparr>document_hidden := False\<rparr>"
  let ?info = "\<lparr>scrollTop = 700, scrollHeight = 1000, clientHeight = 300, distanceFromBottom = 0\<rparr>
      :: scroll_info"
  note h = example_hide_input
  note u = example_show_input
  from scroll_anchor_restored [OF h(1,2,3)] h(4)
  have hide0: "savedScrollInfo (onVisibilityChange ?h) = Some
      \<lparr>scrollTop = scrollTop (elements ?h 0),
       scrollHeight = scrollHeight (elements ?h 0),
       clientHeight = clientHeight (elements ?h 0),
       distanceFromBottom =
         scrollHeight (elements ?h 0) - scrollTop (elements ?h 0) - clientHeight (elements ?h 0)\<rparr>"
    by blast
  have hide: "savedScrollInfo (onVisibilityChange ?h) = Some ?info"
    unfolding hide0 h(6) by simp
  from scroll_anchor_restored [OF u(1,2,3), of ?info 1200 300] u(4,5)
  have shown: "savedScrollInfo (onVisibilityChange ?u) = None"
    "onVisibilityChange (onVisibilityChange ?u) = onVisibilityChange ?u"
    and pos0: "scrollTop (elements (run_animation_frame (host_layout 0 1200 300
        (run_animation_frame (onVisibilityChange ?u)))) 0)
        = max 0 (1200 - 300 - distanceFromBottom ?info)"
    by blast+
  have pos: "scrollTop (elements (run_animation_frame (host_layout 0 1200 300
        (run_animation_frame (onVisibilityChange ?u)))) 0) = 900"
    unfolding pos0 by simp
  show ?thesis
    using h(1,2,3,4) hide u(1,2,3,4,5) shown pos by blast
qed

section \<open>Proofs: initialization\<close>

lemma init_full_caught:
  "init_full faults mobile stored =
     (case run_setup faults (setup_full mobile stored) of
        Some err \<Rightarrow> Returned [LoggedInitFailed err]
      | None \<Rightarrow> Returned [LoggedLoaded])"
  by (simp add: init_full_def)

lemma init_full_returns: "init_full faults mobile stored \<noteq> Propagated e"
  by (simp add: init_full_def split: option.splits)

lemma init_css_returns: "init_css faults stored \<noteq> Propagated e"
  by (simp add: init_css_def split: option.splits)

text \<open>In the variant without \<open>try\<close>, whatever the setup raises first leaves \<open>init\<close>.\<close>

lemma init_basic_propagates_any:
  "run_setup faults (setup_basic stored) = Some e \<Longrightarrow> init_basic faults stored = Propagated e"
  by (simp add: init_basic_def)

lemma example_faults_setup: "run_setup example_faults (setup_basic None) = Some ReferenceError"
  by (simp add: setup_basic_def example_faults_def Let_def)

text \<open>
  C6. The full variant and the five-setting variant never let an error out of \<open>init\<close>,
  whatever the host raises and whatever is stored: the handler logs and returns. The
  three-setting variant has no handler: in a host where building the settings UI raises a
  ReferenceError, with nothing stored, \<open>init\<close> ends by propagating that error.
\<close>

theorem init_basic_propagates:
  "init_basic example_faults None = Propagated ReferenceError
   \<and> (\<forall>faults mobile stored e. init_full faults mobile stored \<noteq> Propagated e)
   \<and> (\<forall>faults stored e. init_css faults stored \<noteq> Propagated e)"
  using init_basic_propagates_any [OF example_faults_setup] init_full_returns init_css_returns
  by blast


end
